theory Spec2Isabelle
  imports Main
begin

section \<open>JavaScript strings\<close>

text \<open>
  The text of a log message is modelled as a \<^typ>\<open>string\<close>: a list of characters, one per
  code unit. Isabelle characters are eight bits wide, so the model covers the messages
  whose code units lie below 256 (ASCII and Latin-1). The strings that \<^verbatim>\<open>JSON.parse\<close> makes
  from such a text can hold any code unit, through the \<^verbatim>\<open>\uXXXX\<close> escapes: they are lists of
  code units, as natural numbers.
\<close>

type_synonym code_units = "nat list"

definition units :: "string \<Rightarrow> code_units" where
  "units s = map of_char s"

text \<open>\<^verbatim>\<open>s.startsWith(p)\<close>: the first \<open>length p\<close> code units of \<open>s\<close> are \<open>p\<close>.\<close>

definition startsWith :: "string \<Rightarrow> string \<Rightarrow> bool" where
  "startsWith s p = (take (length p) s = p)"

text \<open>
  \<^verbatim>\<open>s.replace(p, '')\<close> with a string pattern: the first occurrence of \<open>p\<close> in \<open>s\<close>,
  searched from the left, is removed; a string without occurrence is returned unchanged.
\<close>

fun replace_first :: "string \<Rightarrow> string \<Rightarrow> string" where
  "replace_first [] p = []"
| "replace_first (c # cs) p =
     (if startsWith (c # cs) p then drop (length p) (c # cs)
      else c # replace_first cs p)"

text \<open>
  The white space and line terminators that \<^verbatim>\<open>trim\<close> removes, as far as they are
  code units below 256: TAB, LF, VT, FF, CR, SPACE and NBSP.
\<close>

definition is_js_space :: "char \<Rightarrow> bool" where
  "is_js_space c = (of_char c \<in> {9, 10, 11, 12, 13, 32, 160 :: nat})"

definition trim :: "string \<Rightarrow> string" where
  "trim s = rev (dropWhile is_js_space (rev (dropWhile is_js_space s)))"

section \<open>Log entries and the scan of one snapshot\<close>

text \<open>
  One entry of the \<^verbatim>\<open>Logs\<close> query. The field \<open>time\<close> holds \<^verbatim>\<open>Date.parse(log.time)\<close>:
  the milliseconds since the epoch, or \<open>None\<close> where \<^verbatim>\<open>Date.parse\<close> gives \<^verbatim>\<open>NaN\<close>
  (every comparison with \<^verbatim>\<open>NaN\<close> is false).
\<close>

record log_entry =
  time :: "int option"
  level :: string
  message :: string

text \<open>The test of the loop body: \<^verbatim>\<open>logTime > reqTime && log.message.startsWith(prefix)\<close>.\<close>

definition qualifies :: "string \<Rightarrow> int \<Rightarrow> log_entry \<Rightarrow> bool" where
  "qualifies prefix reqTime log =
     ((case time log of None \<Rightarrow> False | Some logTime \<Rightarrow> logTime > reqTime)
      \<and> startsWith (message log) prefix)"

text \<open>The value returned from the loop body: \<^verbatim>\<open>log.message.replace(prefix, '').trim()\<close>.\<close>

definition message_body :: "string \<Rightarrow> log_entry \<Rightarrow> string" where
  "message_body prefix log = trim (replace_first (message log) prefix)"

text \<open>
  \<^verbatim>\<open>for (const log of logs.logs) { if (...) return ...; }\<close>: the entries are visited in
  the order of the reply and the first one that passes the test ends the function.
\<close>

fun scan_logs :: "string \<Rightarrow> int \<Rightarrow> log_entry list \<Rightarrow> string option" where
  "scan_logs prefix reqTime [] = None"
| "scan_logs prefix reqTime (log # logs) =
     (if qualifies prefix reqTime log then Some (message_body prefix log)
      else scan_logs prefix reqTime logs)"

section \<open>JSON.parse\<close>

text \<open>
  \<^verbatim>\<open>JSON.parse\<close> is a built-in of the JavaScript platform. It is modelled by a lexer and a
  push-down recogniser of the JSON grammar (ECMA-404): \<open>None\<close> stands for the
  \<^verbatim>\<open>SyntaxError\<close> it throws. A number keeps its decimal mantissa and exponent, so
  \<open>JNum m e\<close> is the number \<open>m \<sqdot> 10\<^sup>e\<close>; an object keeps its members in the order of the
  text, with the duplicates.
\<close>

datatype json =
  JNull
| JBool bool
| JNum int int
| JStr code_units
| JArr "json list"
| JObj "(code_units \<times> json) list"

datatype token =
  TLBrace | TRBrace | TLBracket | TRBracket | TComma | TColon | TLit json

definition is_digit :: "char \<Rightarrow> bool" where
  "is_digit c = (48 \<le> (of_char c :: nat) \<and> (of_char c :: nat) \<le> 57)"

definition digits_val :: "string \<Rightarrow> nat" where
  "digits_val ds = foldl (\<lambda>n c. 10 * n + (of_char c - 48)) 0 ds"

definition hex_val :: "char \<Rightarrow> nat option" where
  "hex_val c =
     (let n = (of_char c :: nat) in
      if 48 \<le> n \<and> n \<le> 57 then Some (n - 48)
      else if 65 \<le> n \<and> n \<le> 70 then Some (n - 55)
      else if 97 \<le> n \<and> n \<le> 102 then Some (n - 87)
      else None)"

text \<open>
  The one-letter escapes of a JSON string: the letter after the backslash, and the code
  unit it stands for.
\<close>

definition unescape :: "char \<Rightarrow> nat option" where
  \<open>unescape c =
     (if c = CHR ''"'' then Some 0x22
      else if c = CHR 0x5C then Some 0x5C
      else if c = CHR ''/'' then Some 0x2F
      else if c = CHR ''b'' then Some 0x08
      else if c = CHR ''f'' then Some 0x0C
      else if c = CHR ''n'' then Some 0x0A
      else if c = CHR ''r'' then Some 0x0D
      else if c = CHR ''t'' then Some 0x09
      else None)\<close>

text \<open>
  The text after an opening quote: the decoded string and the text after the closing
  quote. A \<^verbatim>\<open>\uXXXX\<close> escape gives the code unit \<open>XXXX\<close>, whatever its value.
\<close>

fun lex_string :: "string \<Rightarrow> (code_units \<times> string) option" where
  "lex_string [] = None"
| \<open>lex_string (c # cs) =
     (if c = CHR ''"'' then Some ([], cs)
      else if c = CHR 0x5C then
        (case cs of
           [] \<Rightarrow> None
         | e # cs' \<Rightarrow>
             (if e = CHR ''u'' then
                (case cs' of
                   h1 # h2 # h3 # h4 # cs'' \<Rightarrow>
                     (case (hex_val h1, hex_val h2, hex_val h3, hex_val h4) of
                        (Some a, Some b, Some c, Some d) \<Rightarrow>
                          (case lex_string cs'' of
                             None \<Rightarrow> None
                           | Some (s, r) \<Rightarrow>
                               Some ((((a * 16 + b) * 16 + c) * 16 + d) # s, r))
                      | _ \<Rightarrow> None)
                 | _ \<Rightarrow> None)
              else
                (case unescape e of
                   None \<Rightarrow> None
                 | Some x \<Rightarrow>
                     (case lex_string cs' of
                        None \<Rightarrow> None
                      | Some (s, r) \<Rightarrow> Some (x # s, r)))))
      else if (of_char c :: nat) < 32 then None
      else
        (case lex_string cs of
           None \<Rightarrow> None
         | Some (s, r) \<Rightarrow> Some (of_char c # s, r)))\<close>

text \<open>The exponent part of a number: empty, or \<^verbatim>\<open>e\<close>, an optional sign and digits.\<close>

definition parse_exp :: "string \<Rightarrow> int option" where
  "parse_exp s =
     (case s of
        [] \<Rightarrow> Some 0
      | e # r \<Rightarrow>
          (if e = CHR ''e'' \<or> e = CHR ''E'' then
             (let neg = (r \<noteq> [] \<and> hd r = CHR ''-'');
                  ds = (if r \<noteq> [] \<and> (hd r = CHR ''-'' \<or> hd r = CHR ''+'') then tl r else r)
              in if ds \<noteq> [] \<and> list_all is_digit ds
                 then Some (if neg then - int (digits_val ds) else int (digits_val ds))
                 else None)
           else None))"

text \<open>
  A whole number lexeme: \<^verbatim>\<open>-? (0 | [1-9][0-9]*) (. [0-9]+)? ([eE] [+-]? [0-9]+)?\<close>.
\<close>

definition parse_number :: "string \<Rightarrow> json option" where
  "parse_number s =
     (let neg = (s \<noteq> [] \<and> hd s = CHR ''-'');
          s1 = (if neg then tl s else s);
          ip = takeWhile is_digit s1;
          s2 = dropWhile is_digit s1;
          dot = (s2 \<noteq> [] \<and> hd s2 = CHR ''.'');
          fp = (if dot then takeWhile is_digit (tl s2) else []);
          s3 = (if dot then dropWhile is_digit (tl s2) else s2)
      in if ip = [] \<or> (length ip > 1 \<and> hd ip = CHR ''0'') \<or> (dot \<and> fp = []) then None
         else
           (case parse_exp s3 of
              None \<Rightarrow> None
            | Some ex \<Rightarrow>
                Some (JNum ((if neg then - 1 else 1) * int (digits_val (ip @ fp)))
                           (ex - int (length fp)))))"

definition is_json_space :: "char \<Rightarrow> bool" where
  "is_json_space c = (of_char c \<in> {9, 10, 13, 32 :: nat})"

definition is_number_char :: "char \<Rightarrow> bool" where
  "is_number_char c =
     (is_digit c \<or> c = CHR ''-'' \<or> c = CHR ''+'' \<or> c = CHR ''.'' \<or> c = CHR ''e'' \<or> c = CHR ''E'')"

definition cons_token :: "token \<Rightarrow> token list option \<Rightarrow> token list option" where
  "cons_token t r = (case r of None \<Rightarrow> None | Some ts \<Rightarrow> Some (t # ts))"

function lex :: "string \<Rightarrow> token list option" where
  "lex [] = Some []"
| \<open>lex (c # cs) =
     (if is_json_space c then lex cs
      else if c = CHR ''{'' then cons_token TLBrace (lex cs)
      else if c = CHR ''}'' then cons_token TRBrace (lex cs)
      else if c = CHR ''['' then cons_token TLBracket (lex cs)
      else if c = CHR '']'' then cons_token TRBracket (lex cs)
      else if c = CHR '','' then cons_token TComma (lex cs)
      else if c = CHR '':'' then cons_token TColon (lex cs)
      else if c = CHR ''"'' then
        (case lex_string cs of
           None \<Rightarrow> None
         | Some (s, r) \<Rightarrow> cons_token (TLit (JStr s)) (lex r))
      else if c = CHR ''t'' \<and> take 3 cs = ''rue'' then
        cons_token (TLit (JBool True)) (lex (drop 3 cs))
      else if c = CHR ''f'' \<and> take 4 cs = ''alse'' then
        cons_token (TLit (JBool False)) (lex (drop 4 cs))
      else if c = CHR ''n'' \<and> take 3 cs = ''ull'' then
        cons_token (TLit JNull) (lex (drop 3 cs))
      else if is_number_char c then
        (case parse_number (c # takeWhile is_number_char cs) of
           None \<Rightarrow> None
         | Some v \<Rightarrow> cons_token (TLit v) (lex (dropWhile is_number_char cs)))
      else None)\<close>
  by pat_completeness auto
termination
proof -
  have shorter: "length r < length cs" if "lex_string cs = Some (s, r)" for cs s r
    using that
  proof (induction cs arbitrary: s r rule: lex_string.induct)
    case 1
    then show ?case by simp
  next
    case (2 c cs)
    then show ?case
      by (fastforce split: if_splits list.splits option.splits prod.splits)
  qed
  show ?thesis
    by (relation "measure length")
       (auto dest: shorter simp: less_Suc_eq_le length_dropWhile_le)
qed

text \<open>
  The recogniser reads the tokens from left to right. Its stack holds the arrays and objects
  that are still open: an array with the elements read so far, an object with the members
  read so far, or an object with a key whose value is being read.
\<close>

datatype frame =
  InArr "json list"
| InObj "(code_units \<times> json) list"
| InObjVal "(code_units \<times> json) list" code_units

datatype mode =
  Val | ValOrEnd | Key | KeyOrEnd | Colon code_units | Sep | Done json

text \<open>A complete value goes to the innermost open container, or ends the text.\<close>

fun deliver :: "json \<Rightarrow> frame list \<Rightarrow> (frame list \<times> mode) option" where
  "deliver v [] = Some ([], Done v)"
| "deliver v (InArr vs # st) = Some (InArr (vs @ [v]) # st, Sep)"
| "deliver v (InObjVal ps k # st) = Some (InObj (ps @ [(k, v)]) # st, Sep)"
| "deliver v (InObj ps # st) = None"

fun expect_value :: "bool \<Rightarrow> token \<Rightarrow> frame list \<Rightarrow> (frame list \<times> mode) option" where
  "expect_value may_end (TLit v) st = deliver v st"
| "expect_value may_end TLBracket st = Some (InArr [] # st, ValOrEnd)"
| "expect_value may_end TLBrace st = Some (InObj [] # st, KeyOrEnd)"
| "expect_value may_end TRBracket (InArr vs # st) =
     (if may_end then deliver (JArr vs) st else None)"
| "expect_value may_end t st = None"

fun expect_key :: "bool \<Rightarrow> token \<Rightarrow> frame list \<Rightarrow> (frame list \<times> mode) option" where
  "expect_key may_end (TLit (JStr k)) st = Some (st, Colon k)"
| "expect_key may_end TRBrace (InObj ps # st) =
     (if may_end then deliver (JObj ps) st else None)"
| "expect_key may_end t st = None"

fun expect_sep :: "token \<Rightarrow> frame list \<Rightarrow> (frame list \<times> mode) option" where
  "expect_sep TComma (InArr vs # st) = Some (InArr vs # st, Val)"
| "expect_sep TComma (InObj ps # st) = Some (InObj ps # st, Key)"
| "expect_sep TRBracket (InArr vs # st) = deliver (JArr vs) st"
| "expect_sep TRBrace (InObj ps # st) = deliver (JObj ps) st"
| "expect_sep t st = None"

fun parse_step :: "token \<Rightarrow> frame list \<times> mode \<Rightarrow> (frame list \<times> mode) option" where
  "parse_step t (st, Val) = expect_value False t st"
| "parse_step t (st, ValOrEnd) = expect_value True t st"
| "parse_step t (st, Key) = expect_key False t st"
| "parse_step t (st, KeyOrEnd) = expect_key True t st"
| "parse_step t (InObj ps # st, Colon k) =
     (if t = TColon then Some (InObjVal ps k # st, Val) else None)"
| "parse_step t (st, Colon k) = None"
| "parse_step t (st, Sep) = expect_sep t st"
| "parse_step t (st, Done v) = None"

fun parse_tokens :: "token list \<Rightarrow> frame list \<times> mode \<Rightarrow> json option" where
  "parse_tokens [] (st, m) = (case m of Done v \<Rightarrow> Some v | _ \<Rightarrow> None)"
| "parse_tokens (t # ts) s =
     (case parse_step t s of None \<Rightarrow> None | Some s' \<Rightarrow> parse_tokens ts s')"

definition JSON_parse :: "string \<Rightarrow> json option" where
  "JSON_parse text = (case lex text of None \<Rightarrow> None | Some ts \<Rightarrow> parse_tokens ts ([], Val))"

text \<open>
  \<^verbatim>\<open>Boolean(v)\<close>. A number is falsy when it is zero as a double: its mantissa is zero, or it
  is so small that it rounds to zero (at most \<^verbatim>\<open>2 ** -1075\<close> in magnitude).
\<close>

fun truthy :: "json \<Rightarrow> bool" where
  "truthy JNull = False"
| "truthy (JBool b) = b"
| "truthy (JNum m e) = (m \<noteq> 0 \<and> \<not> (e < 0 \<and> \<bar>m\<bar> * 2 ^ 1075 \<le> 10 ^ nat (- e)))"
| "truthy (JStr s) = (s \<noteq> [])"
| "truthy (JArr vs) = True"
| "truthy (JObj ps) = True"

text \<open>
  \<^verbatim>\<open>v.url\<close> on a value that \<^verbatim>\<open>JSON.parse\<close> made: the last member named \<^verbatim>\<open>url\<close> of an
  object, \<open>None\<close> (\<^verbatim>\<open>undefined\<close>) on an object without one and on every other value.
\<close>

fun url_of :: "json \<Rightarrow> json option" where
  "url_of (JObj ps) = map_of (rev ps) (units ''url'')"
| "url_of v = None"

text \<open>
  Whether the conversion of a parsed value to a string, as in a template literal
  \<^verbatim>\<open>`${v}`\<close>, throws a \<^verbatim>\<open>TypeError\<close>. An object made by \<^verbatim>\<open>JSON.parse\<close> is converted by
  its \<^verbatim>\<open>toString\<close>; a member of that name hides the inherited method and is not callable,
  and \<^verbatim>\<open>valueOf\<close> gives no primitive either. An array converts its elements and joins them.
\<close>

fun template_throws :: "json \<Rightarrow> bool" where
  "template_throws (JObj ps) = (map_of ps (units ''toString'') \<noteq> None)"
| "template_throws (JArr vs) = list_ex template_throws vs"
| "template_throws v = False"

section \<open>The outside world\<close>

text \<open>
  What a promise is rejected with, or what is thrown: the string that \<^verbatim>\<open>pollLogsForMessage\<close>
  throws, the \<^verbatim>\<open>SyntaxError\<close> of \<^verbatim>\<open>JSON.parse\<close>, the \<^verbatim>\<open>TypeError\<close> of a failed conversion
  to a string, an \<^verbatim>\<open>Error\<close> object made with \<^verbatim>\<open>new Error(msg)\<close>, and the rejection of a
  \<^verbatim>\<open>csLib.callGQL\<close> request.
\<close>

datatype failure =
  ThrownString string
| SyntaxError
| TypeError
| NewError string
| RequestFailed string

text \<open>
  The calls the code makes to its platform, in the order it makes them: a reading of
  \<^verbatim>\<open>Date.now()\<close>, an awaited \<^verbatim>\<open>setTimeout\<close> of so many milliseconds, a \<^verbatim>\<open>Logs\<close> query and
  a \<^verbatim>\<open>RunPluginTask\<close> mutation with its plugin id, task name and string arguments.
\<close>

datatype event =
  ClockRead
| Timer nat
| LogsQuery
| RunTask string string "(string \<times> string) list"

text \<open>
  The state threaded through the code is the list of the calls made so far, oldest
  first. The platform answers each call from that history: \<open>date_now\<close> is the clock,
  \<open>logs_reply\<close> settles a \<^verbatim>\<open>Logs\<close> query with a snapshot of the log or rejects it, and
  \<open>task_reply\<close> accepts a task (\<open>None\<close>) or rejects it.
\<close>

record env =
  date_now :: "event list \<Rightarrow> int"
  logs_reply :: "event list \<Rightarrow> failure + log_entry list"
  task_reply :: "event list \<Rightarrow> failure option"

definition Date_now :: "env \<Rightarrow> event list \<Rightarrow> int \<times> event list" where
  "Date_now E tr = (date_now E tr, tr @ [ClockRead])"

definition callGQL_Logs :: "env \<Rightarrow> event list \<Rightarrow> (failure + log_entry list) \<times> event list" where
  "callGQL_Logs E tr = (logs_reply E tr, tr @ [LogsQuery])"

text \<open>
  \<^verbatim>\<open>runPluginTask(pluginId, taskName, args)\<close> sends the mutation and returns the promise
  of \<^verbatim>\<open>csLib.callGQL\<close>.
\<close>

definition runPluginTask ::
  "env \<Rightarrow> string \<Rightarrow> string \<Rightarrow> (string \<times> string) list \<Rightarrow> event list \<Rightarrow> failure option \<times> event list"
where
  "runPluginTask E pluginId taskName args tr = (task_reply E tr, tr @ [RunTask pluginId taskName args])"

section \<open>pollLogsForMessage\<close>

text \<open>
  The body of \<^verbatim>\<open>while (true)\<close>, with the counter \<open>retries\<close> as it is on entry:
  \<^verbatim>\<open>
      const delay = 2 ** retries * 100;
      await new Promise(r => setTimeout(r, delay));
      retries++;
      const logs = await csLib.callGQL(reqData);
      for (const log of logs.logs) { ... return ... }
      if (retries >= 5) throw `Poll logs failed for message: ${prefix}`;
  \<close>
  A rejected query leaves the function through the \<^verbatim>\<open>await\<close>.
\<close>

definition backoff_delay :: "nat \<Rightarrow> nat" where
  "backoff_delay retries = 2 ^ retries * 100"

function poll_loop ::
  "env \<Rightarrow> string \<Rightarrow> int \<Rightarrow> nat \<Rightarrow> event list \<Rightarrow> (failure + string) \<times> event list"
where
  "poll_loop E prefix reqTime retries tr =
     (case callGQL_Logs E (tr @ [Timer (backoff_delay retries)]) of
        (Inl err, tr') \<Rightarrow> (Inl err, tr')
      | (Inr logs, tr') \<Rightarrow>
          (case scan_logs prefix reqTime logs of
             Some body \<Rightarrow> (Inr body, tr')
           | None \<Rightarrow>
               (if retries + 1 \<ge> 5
                then (Inl (ThrownString (''Poll logs failed for message: '' @ prefix)), tr')
                else poll_loop E prefix reqTime (retries + 1) tr')))"
  by pat_completeness auto
termination
  by (relation "measure (\<lambda>(E, prefix, reqTime, retries, tr). 5 - retries)") auto

declare poll_loop.simps [simp del]

text \<open>
  \<^verbatim>\<open>async function pollLogsForMessage(prefix)\<close>: the reference time is read from the clock
  when the function starts, then the function waits 500 ms and enters the loop.
\<close>

definition pollLogsForMessage :: "env \<Rightarrow> string \<Rightarrow> event list \<Rightarrow> (failure + string) \<times> event list" where
  "pollLogsForMessage E prefix tr =
     (case Date_now E tr of
        (reqTime, tr') \<Rightarrow> poll_loop E prefix reqTime 0 (tr' @ [Timer 500]))"

text \<open>
  The call \<^verbatim>\<open>pollLogsForMessage(prefix, 'Info', reqTime)\<close> of the plugin. The function
  declares one parameter, so JavaScript binds \<open>prefix\<close> and drops the two other arguments.
\<close>

definition pollLogsForMessage_call ::
  "env \<Rightarrow> string \<Rightarrow> string \<Rightarrow> int \<Rightarrow> event list \<Rightarrow> (failure + string) \<times> event list"
where
  "pollLogsForMessage_call E prefix lvl reqTime tr = pollLogsForMessage E prefix tr"

section \<open>pollLogsWithRetries and fetchTagIcon\<close>

text \<open>
  The callback given to \<^verbatim>\<open>then\<close> in \<^verbatim>\<open>tryPollLogs\<close> either settles the promise that
  \<^verbatim>\<open>pollLogsWithRetries\<close> returns and ends normally, or throws before it has settled it.
\<close>

datatype callback_outcome = Settled "failure + json" | Thrown failure

text \<open>
  \<^verbatim>\<open>
      const parsedResult = JSON.parse(result.trim());
      if (parsedResult && parsedResult.url) {
        console.log(`Got image URL for ${tagName}: ${parsedResult.url}`);
        resolve(parsedResult.url);
      } else {
        reject(new Error(`No image generated for: ${tagName}`));
      }
  \<close>
  \<^verbatim>\<open>JSON.parse\<close> may throw, and so may the template literal, which converts the url to a
  string before \<^verbatim>\<open>resolve\<close> is reached.
\<close>

definition then_callback :: "string \<Rightarrow> string \<Rightarrow> callback_outcome" where
  "then_callback tagName result =
     (case JSON_parse (trim result) of
        None \<Rightarrow> Thrown SyntaxError
      | Some parsedResult \<Rightarrow>
          (case (if truthy parsedResult then url_of parsedResult else None) of
             Some url \<Rightarrow>
               (if truthy url then
                  (if template_throws url then Thrown TypeError else Settled (Inr url))
                else Settled (Inl (NewError (''No image generated for: '' @ tagName))))
           | None \<Rightarrow> Settled (Inl (NewError (''No image generated for: '' @ tagName)))))"

text \<open>
  The promise \<^verbatim>\<open>pollLogsForMessage(...).then(callback)\<close>, on which \<^verbatim>\<open>catch\<close> is called: it
  is rejected when the poll is rejected and when the callback throws.
\<close>

definition after_then :: "string \<Rightarrow> failure + string \<Rightarrow> callback_outcome" where
  "after_then tagName res =
     (case res of Inl err \<Rightarrow> Thrown err | Inr result \<Rightarrow> then_callback tagName result)"

text \<open>
  \<^verbatim>\<open>tryPollLogs\<close>, with the counter \<open>attempts\<close> as it is on entry; the counter and
  \<open>maxRetries\<close> are integers (the one call of \<^verbatim>\<open>pollLogsWithRetries\<close> passes 5). The callback of
  \<^verbatim>\<open>catch\<close> counts the attempt, then rejects the outer promise or calls \<^verbatim>\<open>tryPollLogs\<close>
  again:
  \<^verbatim>\<open>
      attempts++;
      if (attempts >= maxRetries) { reject(error); } else { tryPollLogs(); }
  \<close>
\<close>

function tryPollLogs ::
  "env \<Rightarrow> string \<Rightarrow> int \<Rightarrow> string \<Rightarrow> int \<Rightarrow> int \<Rightarrow> event list \<Rightarrow> (failure + json) \<times> event list"
where
  "tryPollLogs E prefix reqTime tagName maxRetries attempts tr =
     (case pollLogsForMessage_call E prefix ''Info'' reqTime tr of
        (res, tr') \<Rightarrow>
          (case after_then tagName res of
             Settled outcome \<Rightarrow> (outcome, tr')
           | Thrown error \<Rightarrow>
               (if attempts + 1 \<ge> maxRetries then (Inl error, tr')
                else tryPollLogs E prefix reqTime tagName maxRetries (attempts + 1) tr')))"
  by pat_completeness auto
termination
  by (relation "measure (\<lambda>(E, prefix, reqTime, tagName, maxRetries, attempts, tr).
        nat (maxRetries - attempts))") auto

declare tryPollLogs.simps [simp del]

definition pollLogsWithRetries ::
  "env \<Rightarrow> string \<Rightarrow> int \<Rightarrow> string \<Rightarrow> int \<Rightarrow> event list \<Rightarrow> (failure + json) \<times> event list"
where
  "pollLogsWithRetries E prefix reqTime tagName maxRetries tr =
     tryPollLogs E prefix reqTime tagName maxRetries 0 tr"

text \<open>How the promise that \<^verbatim>\<open>fetchTagIcon\<close> returns ends: settled, or never settled.\<close>

datatype 'a promise = Resolved 'a | Rejected failure | Pending

definition PLUGIN_ID :: string where
  "PLUGIN_ID = ''stash-plugin-recraft-icons''"

definition icon_prefix :: string where
  "icon_prefix = ''[Plugin / Recraft Tag Icons] recraftTagIcon =''"

text \<open>
  \<^verbatim>\<open>fetchTagIcon(params, tagName, Toast)\<close>; \<open>params\<close> is not read, the toasts and the console
  are left out (the url that reaches the template literal here has been converted to a string
  before, in \<^verbatim>\<open>tryPollLogs\<close>). \<^verbatim>\<open>runPluginTask\<close> is an \<^verbatim>\<open>async\<close> function, so a failed submission is a
  rejected promise and not an exception: the \<^verbatim>\<open>try\<close> block does not see it, and the promise
  made by \<^verbatim>\<open>then\<close> has no rejection handler that would call \<^verbatim>\<open>reject\<close>.
\<close>

definition fetchTagIcon :: "env \<Rightarrow> string \<Rightarrow> event list \<Rightarrow> json promise \<times> event list" where
  "fetchTagIcon E tagName tr =
     (case Date_now E tr of
        (reqTime, tr1) \<Rightarrow>
          (case runPluginTask E PLUGIN_ID ''Recraft Tag Icon''
                  [(''name'', ''recraftTagIcon''), (''tagName'', tagName)] tr1 of
             (Some err, tr2) \<Rightarrow> (Pending, tr2)
           | (None, tr2) \<Rightarrow>
               (case pollLogsWithRetries E icon_prefix reqTime tagName 5 tr2 of
                  (Inr imageUrl, tr3) \<Rightarrow> (Resolved imageUrl, tr3)
                | (Inl err, tr3) \<Rightarrow> (Rejected err, tr3))))"

section \<open>Notions used to state the properties\<close>

text \<open>An entry is newer than \<open>T\<close> when its time is a number greater than \<open>T\<close>.\<close>

definition newer_than :: "int \<Rightarrow> log_entry \<Rightarrow> bool" where
  "newer_than T log = (case time log of None \<Rightarrow> False | Some t \<Rightarrow> T < t)"

text \<open>The same world, with the entries that are not newer than \<open>T\<close> taken out of every snapshot.\<close>

definition hide_stale :: "int \<Rightarrow> env \<Rightarrow> env" where
  "hide_stale T E = E\<lparr>logs_reply := (\<lambda>h. map_sum id (filter (newer_than T)) (logs_reply E h))\<rparr>"

text \<open>The test \<^verbatim>\<open>parsedResult && parsedResult.url\<close> of \<^verbatim>\<open>tryPollLogs\<close>, as a truth value.\<close>

definition has_url :: "json \<Rightarrow> bool" where
  "has_url v = (truthy v \<and> (case url_of v of None \<Rightarrow> False | Some u \<Rightarrow> truthy u))"

text \<open>Two entries that differ at most in their level.\<close>

definition same_but_level :: "log_entry \<Rightarrow> log_entry \<Rightarrow> bool" where
  "same_but_level a b = (time a = time b \<and> message a = message b)"

subsection \<open>Counting the calls of a history\<close>

text \<open>
  \<^verbatim>\<open>pollLogsForMessage\<close> reads the clock once, when it starts, and nothing else in
  \<^verbatim>\<open>pollLogsWithRetries\<close> reads it: there the clock readings count its invocations.
\<close>

definition clock_reads :: "event list \<Rightarrow> nat" where
  "clock_reads tr = count_list tr ClockRead"

definition log_queries :: "event list \<Rightarrow> nat" where
  "log_queries tr = count_list tr LogsQuery"

fun is_run_task :: "event \<Rightarrow> bool" where
  "is_run_task (RunTask p t a) = True"
| "is_run_task e = False"

definition submissions :: "event list \<Rightarrow> nat" where
  "submissions tr = length (filter is_run_task tr)"

text \<open>The calls of \<open>k\<close> consecutive attempts of the loop, the first with counter \<open>r\<close>.\<close>

definition attempts_trace :: "nat \<Rightarrow> nat \<Rightarrow> event list" where
  "attempts_trace r k = concat (map (\<lambda>i. [Timer (backoff_delay i), LogsQuery]) [r..<r + k])"

text \<open>
  The history at which attempt \<open>i\<close> of a poll started at \<open>tr\<close> sends its query, when the
  attempts before it have found nothing: the clock reading, the 500 ms, the \<open>i\<close> earlier
  attempts and the wait of attempt \<open>i\<close>.
\<close>

definition attempt_history :: "event list \<Rightarrow> nat \<Rightarrow> event list" where
  "attempt_history tr i = tr @ [ClockRead, Timer 500] @ attempts_trace 0 i @ [Timer (backoff_delay i)]"

subsection \<open>Example worlds\<close>

text \<open>
  The time that has passed after a history of calls: a timer takes its delay, a \<^verbatim>\<open>Logs\<close>
  query 20 ms and a \<^verbatim>\<open>RunPluginTask\<close> mutation 30 ms.
\<close>

fun elapsed :: "event list \<Rightarrow> int" where
  "elapsed [] = 0"
| "elapsed (ClockRead # h) = elapsed h"
| "elapsed (Timer n # h) = int n + elapsed h"
| "elapsed (LogsQuery # h) = 20 + elapsed h"
| "elapsed (RunTask p t a # h) = 30 + elapsed h"

text \<open>
  A world that starts at time \<open>start\<close>, in which the remote side writes the entries \<open>written\<close>
  at the times they carry: a query sees the entries written up to the moment it is sent.
  Every task submission is answered with \<open>ack\<close>.
\<close>

definition live_world :: "int \<Rightarrow> log_entry list \<Rightarrow> failure option \<Rightarrow> env" where
  "live_world start written ack =
     \<lparr>date_now = (\<lambda>h. start + elapsed h),
      logs_reply = (\<lambda>h. Inr (filter (\<lambda>e. \<not> newer_than (start + elapsed h) e) written)),
      task_reply = (\<lambda>h. ack)\<rparr>"

definition entry :: "int \<Rightarrow> string \<Rightarrow> log_entry" where
  "entry t msg = \<lparr>time = Some t, level = ''Info'', message = msg\<rparr>"

section \<open>Properties of the poll\<close>

lemmas run_simps =
  pollLogsForMessage_def Date_now_def callGQL_Logs_def poll_loop.simps backoff_delay_def
  qualifies_def newer_than_def startsWith_def message_body_def trim_def is_js_space_def
  live_world_def entry_def icon_prefix_def

lemmas retry_simps =
  fetchTagIcon_def runPluginTask_def pollLogsWithRetries_def tryPollLogs.simps
  pollLogsForMessage_call_def after_then_def then_callback_def PLUGIN_ID_def

lemmas count_simps = clock_reads_def log_queries_def submissions_def

lemmas json_simps =
  JSON_parse_def cons_token_def is_json_space_def is_number_char_def is_digit_def unescape_def
  units_def parse_number_def parse_exp_def digits_val_def

lemma scan_logs_find:
  "scan_logs prefix T logs = map_option (message_body prefix) (find (qualifies prefix T) logs)"
  by (induction logs) auto

lemma find_qualifies:
  "find (qualifies prefix T) logs = Some e \<Longrightarrow>
     e \<in> set logs \<and> (\<exists>t. time e = Some t \<and> T < t) \<and> startsWith (message e) prefix"
  by (auto simp: find_Some_iff qualifies_def split: option.splits)

lemma replace_first_prefix: "startsWith s p \<Longrightarrow> replace_first s p = drop (length p) s"
  by (cases s) (auto simp: startsWith_def)

lemma scan_logs_first:
  "\<forall>x \<in> set older. \<not> qualifies prefix T x \<Longrightarrow> qualifies prefix T e \<Longrightarrow>
     scan_logs prefix T (older @ e # rest) = Some (message_body prefix e)"
  by (induction older) auto

lemma scan_logs_same_but_level:
  "list_all2 same_but_level logs logs' \<Longrightarrow> scan_logs prefix T logs' = scan_logs prefix T logs"
  by (induction logs logs' rule: list_all2_induct)
     (auto simp: same_but_level_def qualifies_def message_body_def)

lemma scan_logs_filter_newer:
  "scan_logs prefix T (filter (newer_than T) logs) = scan_logs prefix T logs"
  by (induction logs) (auto simp: qualifies_def newer_than_def split: option.splits)

lemma poll_loop_unfold:
  "poll_loop E prefix T r tr =
     (case logs_reply E (tr @ [Timer (backoff_delay r)]) of
        Inl err \<Rightarrow> (Inl err, tr @ [Timer (backoff_delay r), LogsQuery])
      | Inr logs \<Rightarrow>
          (case scan_logs prefix T logs of
             Some body \<Rightarrow> (Inr body, tr @ [Timer (backoff_delay r), LogsQuery])
           | None \<Rightarrow>
               (if 4 \<le> r
                then (Inl (ThrownString (''Poll logs failed for message: '' @ prefix)),
                      tr @ [Timer (backoff_delay r), LogsQuery])
                else poll_loop E prefix T (Suc r) (tr @ [Timer (backoff_delay r), LogsQuery]))))"
  by (subst poll_loop.simps) (simp add: callGQL_Logs_def split: sum.splits option.splits)

lemma poll_loop_induct [case_names step]:
  assumes step: "\<And>r tr.
     (\<And>logs. logs_reply E (tr @ [Timer (backoff_delay r)]) = Inr logs \<Longrightarrow>
              scan_logs prefix T logs = None \<Longrightarrow> r < 4 \<Longrightarrow>
              P (Suc r) (tr @ [Timer (backoff_delay r), LogsQuery])) \<Longrightarrow> P r tr"
  shows "P r tr"
proof (induction "5 - r" arbitrary: r tr rule: less_induct)
  case (less r tr)
  show ?case
  proof (rule step)
    assume "r < 4"
    then have "5 - Suc r < 5 - r" by simp
    then show "P (Suc r) (tr @ [Timer (backoff_delay r), LogsQuery])"
      by (rule less.hyps)
  qed
qed

lemma poll_loop_sound:
  "fst (poll_loop E prefix T r tr) = Inr body \<Longrightarrow>
     \<exists>h logs e. logs_reply E h = Inr logs \<and> find (qualifies prefix T) logs = Some e
        \<and> body = message_body prefix e"
proof (induction r tr rule: poll_loop_induct [where E = E and prefix = prefix and T = T])
  case (step r tr)
  show ?case
  proof (cases "logs_reply E (tr @ [Timer (backoff_delay r)])")
    case (Inl err)
    with step.prems show ?thesis
      by (simp add: poll_loop_unfold [of E prefix T r tr])
  next
    case (Inr logs)
    show ?thesis
    proof (cases "scan_logs prefix T logs")
      case None
      with Inr step.prems have "r < 4"
        and "fst (poll_loop E prefix T (Suc r) (tr @ [Timer (backoff_delay r), LogsQuery])) = Inr body"
        by (auto simp: poll_loop_unfold [of E prefix T r tr] split: if_splits)
      with step.IH [OF Inr None] show ?thesis by blast
    next
      case (Some b)
      with Inr step.prems have "b = body"
        by (simp add: poll_loop_unfold [of E prefix T r tr])
      with Some Inr show ?thesis
        by (auto simp: scan_logs_find)
    qed
  qed
qed

lemma poll_loop_cong:
  assumes same: "\<And>h. map_sum id (scan_logs prefix T) (logs_reply E' h)
                = map_sum id (scan_logs prefix T) (logs_reply E h)"
  shows "poll_loop E' prefix T r tr = poll_loop E prefix T r tr"
proof (induction r tr rule: poll_loop_induct [where E = E and prefix = prefix and T = T])
  case (step r tr)
  let ?h = "tr @ [Timer (backoff_delay r)]"
  have eq: "map_sum id (scan_logs prefix T) (logs_reply E' ?h)
          = map_sum id (scan_logs prefix T) (logs_reply E ?h)"
    by (rule same)
  show ?case
  proof (cases "logs_reply E ?h")
    case (Inl err)
    with eq have "logs_reply E' ?h = Inl err" by (cases "logs_reply E' ?h") auto
    with Inl show ?thesis
      by (simp add: poll_loop_unfold [of _ prefix T r tr])
  next
    case (Inr logs)
    with eq obtain logs' where l': "logs_reply E' ?h = Inr logs'"
      and s: "scan_logs prefix T logs' = scan_logs prefix T logs"
      by (cases "logs_reply E' ?h") auto
    show ?thesis
    proof (cases "scan_logs prefix T logs = None \<and> r < 4")
      case True
      with step.IH [OF Inr] Inr l' s show ?thesis
        by (simp add: poll_loop_unfold [of _ prefix T r tr])
    next
      case False
      with Inr l' s show ?thesis
        by (auto simp: poll_loop_unfold [of _ prefix T r tr] split: option.splits)
    qed
  qed
qed


lemma attempts_trace_Suc:
  "attempts_trace r (Suc k) = [Timer (backoff_delay r), LogsQuery] @ attempts_trace (Suc r) k"
proof -
  have "[r..<r + Suc k] = r # [Suc r..<Suc r + k]"
    by (subst upt_conv_Cons) simp_all
  then show ?thesis
    unfolding attempts_trace_def by simp
qed

lemma attempts_trace_clock_reads: "clock_reads (attempts_trace r k) = 0"
proof (induction k arbitrary: r)
  case 0
  show ?case by (simp add: attempts_trace_def clock_reads_def)
next
  case (Suc k)
  from Suc [of "Suc r"] show ?case
    by (simp add: attempts_trace_Suc clock_reads_def)
qed

lemma attempts_trace_log_queries: "log_queries (attempts_trace r k) = k"
proof (induction k arbitrary: r)
  case 0
  show ?case by (simp add: attempts_trace_def log_queries_def)
next
  case (Suc k)
  from Suc [of "Suc r"] show ?case
    by (simp add: attempts_trace_Suc log_queries_def)
qed

lemma attempts_trace_submissions: "submissions (attempts_trace r k) = 0"
proof (induction k arbitrary: r)
  case 0
  show ?case by (simp add: attempts_trace_def submissions_def)
next
  case (Suc k)
  from Suc [of "Suc r"] show ?case
    by (simp add: attempts_trace_Suc submissions_def)
qed

lemmas attempts_trace_counts =
  attempts_trace_clock_reads attempts_trace_log_queries attempts_trace_submissions

lemma counts_append:
  "clock_reads (xs @ ys) = clock_reads xs + clock_reads ys"
  "log_queries (xs @ ys) = log_queries xs + log_queries ys"
  "submissions (xs @ ys) = submissions xs + submissions ys"
  by (simp_all add: clock_reads_def log_queries_def submissions_def)

lemma poll_loop_trace:
  "\<exists>k. 1 \<le> k \<and> (r < 5 \<longrightarrow> r + k \<le> 5) \<and> (5 \<le> r \<longrightarrow> k = 1)
     \<and> snd (poll_loop E prefix T r tr) = tr @ attempts_trace r k"
proof (induction r tr rule: poll_loop_induct [where E = E and prefix = prefix and T = T])
  case (step r tr)
  let ?tr' = "tr @ [Timer (backoff_delay r), LogsQuery]"
  show ?case
  proof (cases "\<exists>logs. logs_reply E (tr @ [Timer (backoff_delay r)]) = Inr logs
                   \<and> scan_logs prefix T logs = None \<and> r < 4")
    case True
    then obtain logs where l: "logs_reply E (tr @ [Timer (backoff_delay r)]) = Inr logs"
      "scan_logs prefix T logs = None" "r < 4" by blast
    from step.IH [OF l] obtain k where k: "1 \<le> k" "Suc r + k \<le> 5"
      "snd (poll_loop E prefix T (Suc r) ?tr') = ?tr' @ attempts_trace (Suc r) k"
      using l(3) by auto
    from l k(3) have "snd (poll_loop E prefix T r tr) = tr @ attempts_trace r (Suc k)"
      by (simp add: poll_loop_unfold [of E prefix T r tr] attempts_trace_Suc)
    with k(1,2) l(3) show ?thesis
      by (intro exI [of _ "Suc k"]) simp
  next
    case False
    then have "snd (poll_loop E prefix T r tr) = tr @ attempts_trace r 1"
      by (auto simp: poll_loop_unfold [of E prefix T r tr] attempts_trace_def
               split: sum.splits option.splits)
    then show ?thesis
      by (intro exI [of _ 1]) auto
  qed
qed

lemma pollLogsForMessage_trace:
  "\<exists>k. 1 \<le> k \<and> k \<le> 5
     \<and> snd (pollLogsForMessage E prefix tr) = tr @ [ClockRead, Timer 500] @ attempts_trace 0 k"
proof -
  from poll_loop_trace [of 0 E prefix "date_now E tr" "tr @ [ClockRead, Timer 500]"]
  obtain k where "1 \<le> k" "k \<le> 5"
    "snd (poll_loop E prefix (date_now E tr) 0 (tr @ [ClockRead, Timer 500]))
       = (tr @ [ClockRead, Timer 500]) @ attempts_trace 0 k"
    by auto
  then show ?thesis
    by (intro exI [of _ k]) (simp add: pollLogsForMessage_def Date_now_def)
qed

lemma pollLogsForMessage_counts:
  "clock_reads (snd (pollLogsForMessage E prefix tr)) = clock_reads tr + 1"
  "log_queries (snd (pollLogsForMessage E prefix tr)) \<le> log_queries tr + 5"
  "submissions (snd (pollLogsForMessage E prefix tr)) = submissions tr"
proof -
  from pollLogsForMessage_trace [of E prefix tr] obtain k where k: "k \<le> 5"
    and t: "snd (pollLogsForMessage E prefix tr) = tr @ [ClockRead, Timer 500] @ attempts_trace 0 k"
    by blast
  have c: "clock_reads [ClockRead, Timer 500] = 1" "log_queries [ClockRead, Timer 500] = 0"
    "submissions [ClockRead, Timer 500] = 0"
    by (simp_all add: clock_reads_def log_queries_def submissions_def)
  show "clock_reads (snd (pollLogsForMessage E prefix tr)) = clock_reads tr + 1"
    by (simp only: t counts_append attempts_trace_counts c; simp)
  show "log_queries (snd (pollLogsForMessage E prefix tr)) \<le> log_queries tr + 5"
    using k by (simp only: t counts_append attempts_trace_counts c; simp)
  show "submissions (snd (pollLogsForMessage E prefix tr)) = submissions tr"
    by (simp only: t counts_append attempts_trace_counts c; simp)
qed

lemma attempts_trace_snoc:
  "attempts_trace 0 (Suc r) = attempts_trace 0 r @ [Timer (backoff_delay r), LogsQuery]"
  by (simp add: attempts_trace_def)

lemma attempts_trace_length: "length (attempts_trace r k) = 2 * k"
proof (induction k arbitrary: r)
  case 0
  show ?case by (simp add: attempts_trace_def)
next
  case (Suc k)
  from Suc [of "Suc r"] show ?case
    by (simp add: attempts_trace_Suc)
qed

lemma poll_loop_timeout_visited:
  assumes none: "\<And>i. i < 5 \<Longrightarrow>
      \<exists>logs. logs_reply E (tr0 @ attempts_trace 0 i @ [Timer (backoff_delay i)]) = Inr logs
         \<and> scan_logs prefix T logs = None"
  shows "r < 5 \<Longrightarrow> tr = tr0 @ attempts_trace 0 r \<Longrightarrow>
         poll_loop E prefix T r tr =
           (Inl (ThrownString (''Poll logs failed for message: '' @ prefix)),
            tr0 @ attempts_trace 0 5)"
proof (induction r tr rule: poll_loop_induct [where E = E and prefix = prefix and T = T])
  case (step r tr)
  from none [OF step.prems(1)] step.prems(2)
  obtain logs where l: "logs_reply E (tr @ [Timer (backoff_delay r)]) = Inr logs"
    "scan_logs prefix T logs = None" by auto
  have next_tr: "tr @ [Timer (backoff_delay r), LogsQuery] = tr0 @ attempts_trace 0 (Suc r)"
    using step.prems(2) by (simp add: attempts_trace_snoc)
  show ?case
  proof (cases "r < 4")
    case True
    then have "Suc r < 5" by simp
    from step.IH [OF l True this next_tr] True l show ?thesis
      by (simp add: poll_loop_unfold [of E prefix T r tr])
  next
    case False
    with step.prems(1) have r: "Suc r = 5" by simp
    from l False have "poll_loop E prefix T r tr =
        (Inl (ThrownString (''Poll logs failed for message: '' @ prefix)),
         tr @ [Timer (backoff_delay r), LogsQuery])"
      by (simp add: poll_loop_unfold [of E prefix T r tr])
    with next_tr r show ?thesis by simp
  qed
qed

lemma pollLogsForMessage_length:
  "length (snd (pollLogsForMessage E prefix tr)) \<le> length tr + 12"
proof -
  from pollLogsForMessage_trace [of E prefix tr] obtain k where "k \<le> 5"
    "snd (pollLogsForMessage E prefix tr) = tr @ [ClockRead, Timer 500] @ attempts_trace 0 k"
    by blast
  then show ?thesis by (simp add: attempts_trace_length)
qed

text \<open>An escape above \<^verbatim>\<open>00ff\<close> keeps its code unit: the second key here is not \<^verbatim>\<open>url\<close>.\<close>

lemma JSON_parse_keeps_code_units:
  \<open>JSON_parse (''{"url":"x","'' @ [CHR 0x5C] @ ''u0175rl":""}'')
     = Some (JObj [(units ''url'', JStr (units ''x'')), ([0x175, 0x72, 0x6C], JStr [])])
   \<and> then_callback tagName (''{"url":"x","'' @ [CHR 0x5C] @ ''u0175rl":""}'')
     = Settled (Inr (JStr (units ''x'')))\<close>
  by (simp add: then_callback_def trim_def is_js_space_def json_simps hex_val_def)

lemma trim_trim: "trim (trim s) = trim s"
proof -
  define t where "t = dropWhile is_js_space s"
  define u where "u = rev (dropWhile is_js_space (rev t))"
  define w where "w = rev (takeWhile is_js_space (rev t))"
  have "t = rev (takeWhile is_js_space (rev t) @ dropWhile is_js_space (rev t))"
    by (simp only: takeWhile_dropWhile_id rev_rev_ident)
  also have "\<dots> = rev (dropWhile is_js_space (rev t)) @ rev (takeWhile is_js_space (rev t))"
    by (rule rev_append)
  finally have tu: "t = u @ w"
    unfolding u_def w_def .
  have front: "dropWhile is_js_space u = u"
  proof (cases u)
    case Nil
    then show ?thesis by simp
  next
    case (Cons x xs)
    with tu have "t \<noteq> []" and "hd t = x" by auto
    moreover from \<open>t \<noteq> []\<close> have "\<not> is_js_space (hd t)"
      unfolding t_def by (rule hd_dropWhile)
    ultimately show ?thesis using Cons by simp
  qed
  have rear: "dropWhile is_js_space (rev u) = rev u"
    by (simp add: u_def)
  have "trim s = u"
    by (simp add: trim_def t_def u_def)
  moreover have "trim u = u"
    by (simp add: trim_def front rear)
  ultimately show ?thesis by simp
qed

lemma then_callback_resolves:
  "JSON_parse (trim result) = Some v \<Longrightarrow> truthy v \<Longrightarrow> url_of v = Some u \<Longrightarrow> truthy u \<Longrightarrow>
   \<not> template_throws u \<Longrightarrow> then_callback tagName result = Settled (Inr u)"
  by (simp add: then_callback_def)

section \<open>Properties of the retries\<close>

lemma tryPollLogs_unfold:
  "tryPollLogs E prefix reqTime tagName maxRetries attempts tr =
     (case after_then tagName (fst (pollLogsForMessage E prefix tr)) of
        Settled outcome \<Rightarrow> (outcome, snd (pollLogsForMessage E prefix tr))
      | Thrown error \<Rightarrow>
          (if maxRetries \<le> attempts + 1 then (Inl error, snd (pollLogsForMessage E prefix tr))
           else tryPollLogs E prefix reqTime tagName maxRetries (attempts + 1)
                  (snd (pollLogsForMessage E prefix tr))))"
  by (subst tryPollLogs.simps)
     (simp add: pollLogsForMessage_call_def case_prod_beta split: callback_outcome.splits)

lemma tryPollLogs_cases [case_names stop retry]:
  obtains
    "snd (tryPollLogs E prefix reqTime tagName maxRetries attempts tr)
       = snd (pollLogsForMessage E prefix tr)"
  | "\<not> maxRetries \<le> attempts + 1"
    "tryPollLogs E prefix reqTime tagName maxRetries attempts tr
       = tryPollLogs E prefix reqTime tagName maxRetries (attempts + 1)
           (snd (pollLogsForMessage E prefix tr))"
proof (cases "after_then tagName (fst (pollLogsForMessage E prefix tr))")
  case (Settled outcome)
  then have "snd (tryPollLogs E prefix reqTime tagName maxRetries attempts tr)
       = snd (pollLogsForMessage E prefix tr)"
    by (subst tryPollLogs_unfold) simp
  then show thesis by (rule that(1))
next
  case (Thrown error)
  show thesis
  proof (cases "maxRetries \<le> attempts + 1")
    case True
    with Thrown have "snd (tryPollLogs E prefix reqTime tagName maxRetries attempts tr)
       = snd (pollLogsForMessage E prefix tr)"
      by (subst tryPollLogs_unfold) simp
    then show thesis by (rule that(1))
  next
    case False
    with Thrown have "tryPollLogs E prefix reqTime tagName maxRetries attempts tr
       = tryPollLogs E prefix reqTime tagName maxRetries (attempts + 1)
           (snd (pollLogsForMessage E prefix tr))"
      by (subst tryPollLogs_unfold) simp
    with False show thesis by (rule that(2))
  qed
qed

lemma tryPollLogs_induct [case_names step]:
  fixes maxRetries attempts :: int
  assumes step: "\<And>attempts tr.
     (\<not> maxRetries \<le> attempts + 1 \<Longrightarrow> P (attempts + 1) (snd (pollLogsForMessage E prefix tr)))
       \<Longrightarrow> P attempts tr"
  shows "P attempts tr"
proof (induction "nat (maxRetries - attempts)" arbitrary: attempts tr rule: less_induct)
  case (less attempts tr)
  show ?case
  proof (rule step)
    assume "\<not> maxRetries \<le> attempts + 1"
    then have "nat (maxRetries - (attempts + 1)) < nat (maxRetries - attempts)" by simp
    then show "P (attempts + 1) (snd (pollLogsForMessage E prefix tr))"
      by (rule less.hyps)
  qed
qed

lemma tryPollLogs_extends:
  "\<exists>ext. snd (tryPollLogs E prefix reqTime tagName maxRetries attempts tr) = tr @ ext"
proof (induction attempts tr rule: tryPollLogs_induct [where E = E and prefix = prefix
                                                        and maxRetries = maxRetries])
  case (step attempts tr)
  from pollLogsForMessage_trace [of E prefix tr]
  obtain e1 where e1: "snd (pollLogsForMessage E prefix tr) = tr @ e1" by blast
  show ?case
  proof (cases rule: tryPollLogs_cases [of E prefix reqTime tagName maxRetries attempts tr])
    case stop
    with e1 show ?thesis by simp
  next
    case retry
    from step [OF retry(1)] obtain e2 where
      "snd (tryPollLogs E prefix reqTime tagName maxRetries (attempts + 1)
             (snd (pollLogsForMessage E prefix tr))) = (tr @ e1) @ e2"
      unfolding e1 by blast
    with retry(2) show ?thesis by simp
  qed
qed

lemma tryPollLogs_counts:
  "int (clock_reads (snd (tryPollLogs E prefix reqTime tagName maxRetries attempts tr)))
     \<le> int (clock_reads tr) + max 1 (maxRetries - attempts)
   \<and> int (log_queries (snd (tryPollLogs E prefix reqTime tagName maxRetries attempts tr)))
     \<le> int (log_queries tr) + 5 * max 1 (maxRetries - attempts)
   \<and> submissions (snd (tryPollLogs E prefix reqTime tagName maxRetries attempts tr))
     = submissions tr"
proof (induction attempts tr rule: tryPollLogs_induct [where E = E and prefix = prefix
                                                        and maxRetries = maxRetries])
  case (step attempts tr)
  let ?tr' = "snd (pollLogsForMessage E prefix tr)"
  let ?again = "tryPollLogs E prefix reqTime tagName maxRetries (attempts + 1) ?tr'"
  have c1: "int (clock_reads ?tr') = int (clock_reads tr) + 1"
    using pollLogsForMessage_counts(1) [of E prefix tr] by simp
  have c2: "int (log_queries ?tr') \<le> int (log_queries tr) + 5"
    using pollLogsForMessage_counts(2) [of E prefix tr] by simp
  have c3: "submissions ?tr' = submissions tr"
    by (rule pollLogsForMessage_counts(3))
  show ?case
  proof (cases rule: tryPollLogs_cases [of E prefix reqTime tagName maxRetries attempts tr])
    case stop
    have "(1::int) \<le> max 1 (maxRetries - attempts)" by simp
    moreover have "5 \<le> 5 * max 1 (maxRetries - attempts)" by simp
    ultimately show ?thesis
      unfolding stop using c1 c2 c3 by (intro conjI) linarith+
  next
    case retry
    let ?m = "max 1 (maxRetries - (attempts + 1))"
    from retry(1) have mm: "max 1 (maxRetries - attempts) = ?m + 1" by simp
    from step [OF retry(1)]
    have a: "int (clock_reads (snd ?again)) \<le> int (clock_reads ?tr') + ?m"
      and b: "int (log_queries (snd ?again)) \<le> int (log_queries ?tr') + 5 * ?m"
      and s: "submissions (snd ?again) = submissions ?tr'"
      by blast+
    show ?thesis
      unfolding retry(2) mm using a b s c1 c2 c3 by (simp add: distrib_left)
  qed
qed

lemma tryPollLogs_polls_once:
  "clock_reads tr + 1 \<le> clock_reads (snd (tryPollLogs E prefix reqTime tagName maxRetries attempts tr))"
proof -
  let ?tr' = "snd (pollLogsForMessage E prefix tr)"
  have c: "clock_reads ?tr' = clock_reads tr + 1"
    by (rule pollLogsForMessage_counts(1))
  show ?thesis
  proof (cases rule: tryPollLogs_cases [of E prefix reqTime tagName maxRetries attempts tr])
    case stop
    with c show ?thesis by simp
  next
    case retry
    from tryPollLogs_extends [of E prefix reqTime tagName maxRetries "attempts + 1" ?tr']
    obtain ext where
      "snd (tryPollLogs E prefix reqTime tagName maxRetries (attempts + 1) ?tr') = ?tr' @ ext"
      by blast
    then have "clock_reads ?tr'
        \<le> clock_reads (snd (tryPollLogs E prefix reqTime tagName maxRetries (attempts + 1) ?tr'))"
      by (simp only: counts_append; simp)
    with c retry(2) show ?thesis by simp
  qed
qed

lemma tryPollLogs_length:
  "int (length (snd (tryPollLogs E prefix reqTime tagName maxRetries attempts tr)))
     \<le> int (length tr) + 12 * max 1 (maxRetries - attempts)"
proof (induction attempts tr rule: tryPollLogs_induct [where E = E and prefix = prefix
                                                        and maxRetries = maxRetries])
  case (step attempts tr)
  let ?tr' = "snd (pollLogsForMessage E prefix tr)"
  let ?again = "tryPollLogs E prefix reqTime tagName maxRetries (attempts + 1) ?tr'"
  have c: "int (length ?tr') \<le> int (length tr) + 12"
    using pollLogsForMessage_length [of E prefix tr] by simp
  show ?case
  proof (cases rule: tryPollLogs_cases [of E prefix reqTime tagName maxRetries attempts tr])
    case stop
    have "12 \<le> 12 * max 1 (maxRetries - attempts)" by simp
    with c show ?thesis unfolding stop by linarith
  next
    case retry
    let ?m = "max 1 (maxRetries - (attempts + 1))"
    from retry(1) have mm: "max 1 (maxRetries - attempts) = ?m + 1" by simp
    from step [OF retry(1)]
    have "int (length (snd ?again)) \<le> int (length ?tr') + 12 * ?m" .
    with c show ?thesis
      unfolding retry(2) mm by (simp add: distrib_left)
  qed
qed

lemma fetchTagIcon_trace:
  "snd (fetchTagIcon E tagName tr)
     = tr @ [ClockRead, RunTask PLUGIN_ID ''Recraft Tag Icon''
                           [(''name'', ''recraftTagIcon''), (''tagName'', tagName)]]
   \<or> (task_reply E (tr @ [ClockRead]) = None
      \<and> snd (fetchTagIcon E tagName tr)
          = snd (tryPollLogs E icon_prefix (date_now E tr) tagName 5 0
                   (tr @ [ClockRead, RunTask PLUGIN_ID ''Recraft Tag Icon''
                           [(''name'', ''recraftTagIcon''), (''tagName'', tagName)]])))"
proof (cases "task_reply E (tr @ [ClockRead])")
  case (Some err)
  then show ?thesis
    by (simp add: fetchTagIcon_def Date_now_def runPluginTask_def)
next
  case None
  let ?tr2 = "tr @ [ClockRead, RunTask PLUGIN_ID ''Recraft Tag Icon''
                           [(''name'', ''recraftTagIcon''), (''tagName'', tagName)]]"
  obtain res tr3 where p:
    "tryPollLogs E icon_prefix (date_now E tr) tagName 5 0 ?tr2 = (res, tr3)"
    by (cases "tryPollLogs E icon_prefix (date_now E tr) tagName 5 0 ?tr2")
  with None have "snd (fetchTagIcon E tagName tr) = tr3"
    by (cases res)
       (simp_all add: fetchTagIcon_def Date_now_def runPluginTask_def pollLogsWithRetries_def)
  with None p show ?thesis by simp
qed

section \<open>The claims\<close>

text \<open>
  C1. The claim holds when the submission is accepted: the promise is then resolved with
  the url or rejected, once. It fails for a rejected submission, where the claim asks for
  a failure: the promise of \<^verbatim>\<open>fetchTagIcon\<close> is never settled. The code evaluated at a
  world whose task runner rejects the mutation.
\<close>

theorem fetchTagIcon_dispatch_error_pending:
  "fetchTagIcon (live_world 1000 [] (Some (RequestFailed ''Failed to fetch''))) ''Forest'' []
     = (Pending,
        [ClockRead, RunTask ''stash-plugin-recraft-icons'' ''Recraft Tag Icon''
                      [(''name'', ''recraftTagIcon''), (''tagName'', ''Forest'')]])"
  by (simp add: retry_simps run_simps)

text \<open>
  C2. \<^verbatim>\<open>fetchTagIcon\<close> records the time 1000 before it submits and passes it on, but
  \<^verbatim>\<open>pollLogsForMessage\<close> compares with the time it reads itself when it starts, here 1030.
  The result is written at 1010, between the two: it passes the test against the
  submission time, sits in every snapshot, and is never returned; all polls time out.
\<close>

theorem fetchTagIcon_ignores_submission_time:
  \<open>date_now (live_world 1000 [entry 1010 (icon_prefix @ '' {"url":"https://img/1.svg"}'')] None) [] = 1000
   \<and> qualifies icon_prefix 1000 (entry 1010 (icon_prefix @ '' {"url":"https://img/1.svg"}''))
   \<and> fst (fetchTagIcon (live_world 1000 [entry 1010 (icon_prefix @ '' {"url":"https://img/1.svg"}'')] None)
            ''Forest'' [])
       = Rejected (ThrownString (''Poll logs failed for message: '' @ icon_prefix))\<close>
  by (simp add: retry_simps run_simps)

text \<open>
  C3. Whatever the reference time \<open>T\<close> read by a poll and whatever the snapshots, a body
  that the poll returns is the body of the first entry of some snapshot that passes the
  test: that entry's time is greater than \<open>T\<close> and its message starts with the prefix.
  Entries at or before \<open>T\<close> are invisible: taking them out of every snapshot changes
  nothing, whatever their messages.
\<close>

theorem pollLogsForMessage_newer_and_prefixed:
  "(fst (pollLogsForMessage E prefix tr) = Inr body \<longrightarrow>
      (\<exists>h logs e. logs_reply E h = Inr logs
         \<and> find (qualifies prefix (date_now E tr)) logs = Some e
         \<and> e \<in> set logs
         \<and> (\<exists>t. time e = Some t \<and> date_now E tr < t)
         \<and> startsWith (message e) prefix
         \<and> body = message_body prefix e))
   \<and> pollLogsForMessage (hide_stale (date_now E tr) E) prefix tr = pollLogsForMessage E prefix tr"
proof
  show "fst (pollLogsForMessage E prefix tr) = Inr body \<longrightarrow>
      (\<exists>h logs e. logs_reply E h = Inr logs
         \<and> find (qualifies prefix (date_now E tr)) logs = Some e
         \<and> e \<in> set logs
         \<and> (\<exists>t. time e = Some t \<and> date_now E tr < t)
         \<and> startsWith (message e) prefix
         \<and> body = message_body prefix e)"
  proof
    assume "fst (pollLogsForMessage E prefix tr) = Inr body"
    then have "fst (poll_loop E prefix (date_now E tr) 0 (tr @ [ClockRead, Timer 500])) = Inr body"
      by (simp add: pollLogsForMessage_def Date_now_def)
    from poll_loop_sound [OF this] obtain h logs e where
      "logs_reply E h = Inr logs" "find (qualifies prefix (date_now E tr)) logs = Some e"
      "body = message_body prefix e"
      by blast
    with find_qualifies [of prefix "date_now E tr" logs e] show
      "\<exists>h logs e. logs_reply E h = Inr logs
         \<and> find (qualifies prefix (date_now E tr)) logs = Some e
         \<and> e \<in> set logs
         \<and> (\<exists>t. time e = Some t \<and> date_now E tr < t)
         \<and> startsWith (message e) prefix
         \<and> body = message_body prefix e"
      by blast
  qed
next
  let ?T = "date_now E tr"
  have "map_sum id (scan_logs prefix ?T) (logs_reply (hide_stale ?T E) h)
      = map_sum id (scan_logs prefix ?T) (logs_reply E h)" for h
    by (cases "logs_reply E h") (simp_all add: hide_stale_def scan_logs_filter_newer)
  then have "poll_loop (hide_stale ?T E) prefix ?T 0 (tr @ [ClockRead, Timer 500])
           = poll_loop E prefix ?T 0 (tr @ [ClockRead, Timer 500])"
    by (rule poll_loop_cong)
  then show "pollLogsForMessage (hide_stale ?T E) prefix tr = pollLogsForMessage E prefix tr"
    by (simp add: pollLogsForMessage_def Date_now_def hide_stale_def)
qed

theorem pollLogsForMessage_newer_and_prefixed_witness:
  \<open>fst (pollLogsForMessage
          (live_world 1000
             [entry 900 (icon_prefix @ '' {"url":"https://img/0.svg"}''),
              entry 1700 (icon_prefix @ '' {"url":"https://img/1.svg"}'')] None)
          icon_prefix []) = Inr ''{"url":"https://img/1.svg"}''
   \<and> (\<exists>h logs e.
         logs_reply (live_world 1000
             [entry 900 (icon_prefix @ '' {"url":"https://img/0.svg"}''),
              entry 1700 (icon_prefix @ '' {"url":"https://img/1.svg"}'')] None) h = Inr logs
         \<and> e \<in> set logs
         \<and> (\<exists>t. time e = Some t \<and> 1000 < t)
         \<and> startsWith (message e) icon_prefix
         \<and> ''{"url":"https://img/1.svg"}'' = message_body icon_prefix e)\<close>
proof -
  let ?E = \<open>live_world 1000
             [entry 900 (icon_prefix @ '' {"url":"https://img/0.svg"}''),
              entry 1700 (icon_prefix @ '' {"url":"https://img/1.svg"}'')] None\<close>
  have run: \<open>fst (pollLogsForMessage ?E icon_prefix []) = Inr ''{"url":"https://img/1.svg"}''\<close>
    by (simp add: run_simps)
  have now: "date_now ?E [] = 1000"
    by (simp add: live_world_def)
  show ?thesis
    using pollLogsForMessage_newer_and_prefixed
            [of ?E icon_prefix "[]" \<open>''{"url":"https://img/1.svg"}''\<close>] run
    unfolding now by blast
qed

text \<open>
  C4, as stated, fails: in a world whose log stays empty the five polls time out one after
  the other (six clock readings, twenty-five queries) and the task is submitted once.
\<close>

theorem fetchTagIcon_single_submission_counterexample:
  "fst (fetchTagIcon (live_world 1000 [] None) ''Forest'' [])
     = Rejected (ThrownString (''Poll logs failed for message: '' @ icon_prefix))
   \<and> clock_reads (snd (fetchTagIcon (live_world 1000 [] None) ''Forest'' [])) = 6
   \<and> log_queries (snd (fetchTagIcon (live_world 1000 [] None) ''Forest'' [])) = 25
   \<and> submissions (snd (fetchTagIcon (live_world 1000 [] None) ''Forest'' [])) = 1"
  by (simp add: retry_simps run_simps count_simps)

text \<open>
  C4, amended. \<^verbatim>\<open>fetchTagIcon\<close> submits the task exactly once, right after it has read the
  clock and before any poll, and \<^verbatim>\<open>pollLogsWithRetries\<close> submits nothing. After a poll that
  failed, or that returned a body which is not parsable, with another attempt allowed,
  \<^verbatim>\<open>tryPollLogs\<close> goes on as \<^verbatim>\<open>tryPollLogs\<close> with one more attempt counted from the
  history the poll left: \<^verbatim>\<open>pollLogsForMessage\<close> is invoked again, and no task is submitted.
\<close>

theorem fetchTagIcon_submits_once:
  "(\<exists>rest. snd (fetchTagIcon E tagName tr)
      = tr @ [ClockRead, RunTask PLUGIN_ID ''Recraft Tag Icon''
                           [(''name'', ''recraftTagIcon''), (''tagName'', tagName)]] @ rest
      \<and> submissions rest = 0)
   \<and> submissions (snd (fetchTagIcon E tagName tr)) = submissions tr + 1
   \<and> submissions (snd (pollLogsWithRetries E prefix reqTime tagName maxRetries tr)) = submissions tr
   \<and> ((fst (pollLogsForMessage F p hs) = Inl err
        \<or> (fst (pollLogsForMessage F p hs) = Inr body \<and> JSON_parse (trim body) = None))
      \<longrightarrow> attempts + 1 < retries
      \<longrightarrow> tryPollLogs F p t0 tag retries attempts hs
            = tryPollLogs F p t0 tag retries (attempts + 1) (snd (pollLogsForMessage F p hs))
          \<and> clock_reads hs + 2 \<le> clock_reads (snd (tryPollLogs F p t0 tag retries attempts hs))
          \<and> submissions (snd (tryPollLogs F p t0 tag retries attempts hs)) = submissions hs)"
proof (intro conjI impI)
  let ?sub = "[ClockRead, RunTask PLUGIN_ID ''Recraft Tag Icon''
                           [(''name'', ''recraftTagIcon''), (''tagName'', tagName)]]"
  let ?tr2 = "tr @ ?sub"
  have s2: "submissions ?sub = 1"
    by (simp add: submissions_def)
  from fetchTagIcon_trace [of E tagName tr]
  show main: "\<exists>rest. snd (fetchTagIcon E tagName tr) = tr @ ?sub @ rest \<and> submissions rest = 0"
  proof
    assume "snd (fetchTagIcon E tagName tr) = ?tr2"
    then show ?thesis
      by (intro exI [of _ "[]"]) (simp add: submissions_def)
  next
    assume a: "task_reply E (tr @ [ClockRead]) = None
      \<and> snd (fetchTagIcon E tagName tr)
          = snd (tryPollLogs E icon_prefix (date_now E tr) tagName 5 0 ?tr2)"
    from tryPollLogs_extends [of E icon_prefix "date_now E tr" tagName 5 0 ?tr2]
    obtain rest where rest:
      "snd (tryPollLogs E icon_prefix (date_now E tr) tagName 5 0 ?tr2) = ?tr2 @ rest"
      by blast
    from tryPollLogs_counts [of E icon_prefix "date_now E tr" tagName 5 0 ?tr2]
    have "submissions (?tr2 @ rest) = submissions ?tr2"
      unfolding rest by blast
    then have "submissions rest = 0"
      by (simp only: counts_append; simp)
    with a rest show ?thesis by simp
  qed
  then obtain rest where rest: "snd (fetchTagIcon E tagName tr) = tr @ ?sub @ rest"
    "submissions rest = 0" by blast
  show "submissions (snd (fetchTagIcon E tagName tr)) = submissions tr + 1"
    by (simp only: rest counts_append s2; simp)
  show "submissions (snd (pollLogsWithRetries E prefix reqTime tagName maxRetries tr))
      = submissions tr"
    using tryPollLogs_counts [of E prefix reqTime tagName maxRetries 0 tr]
    by (simp add: pollLogsWithRetries_def)
next
  let ?hs' = "snd (pollLogsForMessage F p hs)"
  assume f: "fst (pollLogsForMessage F p hs) = Inl err
        \<or> (fst (pollLogsForMessage F p hs) = Inr body \<and> JSON_parse (trim body) = None)"
    and a: "attempts + 1 < retries"
  from f have "\<exists>e. after_then tag (fst (pollLogsForMessage F p hs)) = Thrown e"
    by (auto simp: after_then_def then_callback_def)
  with a show eq: "tryPollLogs F p t0 tag retries attempts hs
            = tryPollLogs F p t0 tag retries (attempts + 1) ?hs'"
    by (subst tryPollLogs_unfold) auto
  have "clock_reads ?hs' = clock_reads hs + 1"
    by (rule pollLogsForMessage_counts(1))
  with tryPollLogs_polls_once [of ?hs' F p t0 tag retries "attempts + 1"]
  show "clock_reads hs + 2 \<le> clock_reads (snd (tryPollLogs F p t0 tag retries attempts hs))"
    unfolding eq by simp
  from tryPollLogs_counts [of F p t0 tag retries attempts hs]
  show "submissions (snd (tryPollLogs F p t0 tag retries attempts hs)) = submissions hs"
    by simp
qed

theorem fetchTagIcon_submits_once_witness:
  "fst (pollLogsForMessage (live_world 1000 [] None) icon_prefix [])
     = Inl (ThrownString (''Poll logs failed for message: '' @ icon_prefix))
   \<and> (0::int) + 1 < 5
   \<and> tryPollLogs (live_world 1000 [] None) icon_prefix 1000 ''Forest'' 5 0 []
       = tryPollLogs (live_world 1000 [] None) icon_prefix 1000 ''Forest'' 5 (0 + 1)
           (snd (pollLogsForMessage (live_world 1000 [] None) icon_prefix []))
   \<and> clock_reads [] + 2
       \<le> clock_reads (snd (tryPollLogs (live_world 1000 [] None) icon_prefix 1000 ''Forest'' 5 0 []))
   \<and> clock_reads (snd (tryPollLogs (live_world 1000 [] None) icon_prefix 1000 ''Forest'' 5 0 [])) = 5
   \<and> submissions (snd (tryPollLogs (live_world 1000 [] None) icon_prefix 1000 ''Forest'' 5 0 [])) = 0"
proof -
  let ?W = "live_world 1000 [] None"
  have h1: "fst (pollLogsForMessage ?W icon_prefix [])
     = Inl (ThrownString (''Poll logs failed for message: '' @ icon_prefix))"
    by (simp add: run_simps)
  have h2: "(0::int) + 1 < 5" by simp
  have e: "clock_reads (snd (tryPollLogs ?W icon_prefix 1000 ''Forest'' 5 0 [])) = 5"
    "submissions (snd (tryPollLogs ?W icon_prefix 1000 ''Forest'' 5 0 [])) = 0"
    by (simp_all add: retry_simps run_simps count_simps)
  from fetchTagIcon_submits_once
         [where F = ?W and p = icon_prefix and hs = "[]"
            and err = "ThrownString (''Poll logs failed for message: '' @ icon_prefix)"
            and attempts = 0 and retries = 5 and ?t0.0 = 1000 and tag = "''Forest''"] h1 h2
  have "tryPollLogs ?W icon_prefix 1000 ''Forest'' 5 0 []
       = tryPollLogs ?W icon_prefix 1000 ''Forest'' 5 (0 + 1)
           (snd (pollLogsForMessage ?W icon_prefix []))
   \<and> clock_reads [] + 2 \<le> clock_reads (snd (tryPollLogs ?W icon_prefix 1000 ''Forest'' 5 0 []))"
    by blast
  with h1 h2 e show ?thesis by blast
qed

text \<open>
  C5, as stated, fails for a body that parses but has no url: with five retries allowed,
  the promise is rejected after the first poll.
\<close>

theorem pollLogsWithRetries_missing_url_counterexample:
  \<open>pollLogsWithRetries
     (live_world 1000 [entry 1100 (icon_prefix @ '' {"status":"failed"}'')] None)
     icon_prefix 1000 ''Forest'' 5 []
   = (Inl (NewError ''No image generated for: Forest''),
      [ClockRead, Timer 500, Timer 100, LogsQuery])\<close>
  by (simp add: retry_simps run_simps json_simps)

text \<open>
  C5, amended. When the body of the matched entry is not parsable and another attempt is
  allowed, \<^verbatim>\<open>tryPollLogs\<close> goes on as a fresh \<^verbatim>\<open>tryPollLogs\<close> with one more attempt
  counted: it polls again, without any submission. When the body parses but has no truthy
  url, the promise is rejected at once with \<^verbatim>\<open>No image generated for: <tag>\<close>, whatever
  the number of attempts left.
\<close>

theorem tryPollLogs_validation_failures:
  "(pollLogsForMessage E prefix tr = (Inr body, tr') \<longrightarrow> JSON_parse (trim body) = None
      \<longrightarrow> attempts + 1 < maxRetries
      \<longrightarrow> tryPollLogs E prefix reqTime tagName maxRetries attempts tr
            = tryPollLogs E prefix reqTime tagName maxRetries (attempts + 1) tr'
          \<and> clock_reads tr + 2
              \<le> clock_reads (snd (tryPollLogs E prefix reqTime tagName maxRetries attempts tr))
          \<and> submissions (snd (tryPollLogs E prefix reqTime tagName maxRetries attempts tr))
              = submissions tr)
   \<and> (pollLogsForMessage F prefix' hs = (Inr body', hs') \<longrightarrow> JSON_parse (trim body') = Some v
      \<longrightarrow> \<not> has_url v
      \<longrightarrow> tryPollLogs F prefix' reqTime' tagName' maxRetries' attempts' hs
            = (Inl (NewError (''No image generated for: '' @ tagName')), hs'))"
proof (intro conjI impI)
  assume p: "pollLogsForMessage E prefix tr = (Inr body, tr')"
    and j: "JSON_parse (trim body) = None" and a: "attempts + 1 < maxRetries"
  then show eq: "tryPollLogs E prefix reqTime tagName maxRetries attempts tr
            = tryPollLogs E prefix reqTime tagName maxRetries (attempts + 1) tr'"
    by (subst tryPollLogs_unfold) (simp add: after_then_def then_callback_def)
  from pollLogsForMessage_counts(1) [of E prefix tr] p
  have "clock_reads tr' = clock_reads tr + 1" by simp
  with tryPollLogs_polls_once [of tr' E prefix reqTime tagName maxRetries "attempts + 1"]
  show "clock_reads tr + 2
          \<le> clock_reads (snd (tryPollLogs E prefix reqTime tagName maxRetries attempts tr))"
    unfolding eq by simp
  from tryPollLogs_counts [of E prefix reqTime tagName maxRetries attempts tr]
  show "submissions (snd (tryPollLogs E prefix reqTime tagName maxRetries attempts tr))
              = submissions tr"
    by simp
next
  assume "pollLogsForMessage F prefix' hs = (Inr body', hs')"
    and "JSON_parse (trim body') = Some v"
    and "\<not> has_url v"
  then show "tryPollLogs F prefix' reqTime' tagName' maxRetries' attempts' hs
            = (Inl (NewError (''No image generated for: '' @ tagName')), hs')"
    by (subst tryPollLogs_unfold)
       (auto simp: after_then_def then_callback_def has_url_def split: option.splits if_splits)
qed


theorem tryPollLogs_validation_failures_witness:
  \<open>pollLogsForMessage (live_world 1000 [entry 1100 (icon_prefix @ '' oops'')] None) icon_prefix []
     = (Inr ''oops'', [ClockRead, Timer 500, Timer 100, LogsQuery])
   \<and> JSON_parse (trim ''oops'') = None
   \<and> (0::int) + 1 < 5
   \<and> tryPollLogs (live_world 1000 [entry 1100 (icon_prefix @ '' oops'')] None)
         icon_prefix 1000 ''Forest'' 5 0 []
      = tryPollLogs (live_world 1000 [entry 1100 (icon_prefix @ '' oops'')] None)
         icon_prefix 1000 ''Forest'' 5 (0 + 1) [ClockRead, Timer 500, Timer 100, LogsQuery]
   \<and> pollLogsForMessage (live_world 1000 [entry 1100 (icon_prefix @ '' {"status":"failed"}'')] None)
         icon_prefix []
     = (Inr ''{"status":"failed"}'', [ClockRead, Timer 500, Timer 100, LogsQuery])
   \<and> JSON_parse (trim ''{"status":"failed"}'') = Some (JObj [(units ''status'', JStr (units ''failed''))])
   \<and> \<not> has_url (JObj [(units ''status'', JStr (units ''failed''))])
   \<and> tryPollLogs (live_world 1000 [entry 1100 (icon_prefix @ '' {"status":"failed"}'')] None)
         icon_prefix 1000 ''Forest'' 5 0 []
      = (Inl (NewError (''No image generated for: '' @ ''Forest'')),
         [ClockRead, Timer 500, Timer 100, LogsQuery])\<close>
proof -
  let ?E = \<open>live_world 1000 [entry 1100 (icon_prefix @ '' oops'')] None\<close>
  let ?F = \<open>live_world 1000 [entry 1100 (icon_prefix @ '' {"status":"failed"}'')] None\<close>
  let ?tr = "[ClockRead, Timer 500, Timer 100, LogsQuery]"
  have a1: \<open>pollLogsForMessage ?E icon_prefix [] = (Inr ''oops'', ?tr)\<close>
    by (simp add: run_simps)
  have a2: \<open>JSON_parse (trim ''oops'') = None\<close>
    by (simp add: trim_def is_js_space_def json_simps)
  have a3: "(0::int) + 1 < 5" by simp
  have b1: \<open>pollLogsForMessage ?F icon_prefix [] = (Inr ''{"status":"failed"}'', ?tr)\<close>
    by (simp add: run_simps)
  have b2: \<open>JSON_parse (trim ''{"status":"failed"}'') = Some (JObj [(units ''status'', JStr (units ''failed''))])\<close>
    by (simp add: trim_def is_js_space_def json_simps)
  have b3: \<open>\<not> has_url (JObj [(units ''status'', JStr (units ''failed''))])\<close>
    by (simp add: has_url_def units_def)
  from tryPollLogs_validation_failures
         [of ?E icon_prefix "[]" \<open>''oops''\<close> ?tr 0 5 1000 \<open>''Forest''\<close>
             ?F icon_prefix "[]" \<open>''{"status":"failed"}''\<close> ?tr
             \<open>JObj [(units ''status'', JStr (units ''failed''))]\<close> 1000 \<open>''Forest''\<close> 5 0]
       a1 a2 a3 b1 b2 b3
  show ?thesis by blast
qed

text \<open>
  C6, as stated, fails: with two qualifying entries in the snapshot, the poll returns the one
  listed first, here the one with the greater time, and the same two entries listed the
  other way round give the other result.
\<close>

theorem pollLogsForMessage_smallest_timestamp_counterexample:
  \<open>fst (pollLogsForMessage
          (live_world 1000
             [entry 1200 (icon_prefix @ '' {"url":"https://img/b.svg"}''),
              entry 1100 (icon_prefix @ '' {"url":"https://img/a.svg"}'')] None)
          icon_prefix []) = Inr ''{"url":"https://img/b.svg"}''
   \<and> fst (pollLogsForMessage
          (live_world 1000
             [entry 1100 (icon_prefix @ '' {"url":"https://img/a.svg"}''),
              entry 1200 (icon_prefix @ '' {"url":"https://img/b.svg"}'')] None)
          icon_prefix []) = Inr ''{"url":"https://img/a.svg"}''\<close>
  by (simp add: run_simps)

text \<open>
  C6, amended. In an attempt whose snapshot has a qualifying entry, the loop returns the
  body of the first qualifying entry in the order of the reply, and it stops there: the
  query of that attempt is the last call it makes.
\<close>

theorem poll_loop_returns_first_listed:
  assumes "logs_reply E (tr @ [Timer (backoff_delay r)]) = Inr (older @ e # rest)"
    and "\<forall>x \<in> set older. \<not> qualifies prefix T x"
    and "qualifies prefix T e"
  shows "poll_loop E prefix T r tr
           = (Inr (message_body prefix e), tr @ [Timer (backoff_delay r), LogsQuery])"
  using assms by (simp add: poll_loop_unfold [of E prefix T r tr] scan_logs_first)

theorem poll_loop_returns_first_listed_witness:
  \<open>logs_reply (live_world 1000
                 [entry 900 (icon_prefix @ '' {"url":"https://img/0.svg"}''),
                  entry 1200 (icon_prefix @ '' {"url":"https://img/b.svg"}''),
                  entry 1100 (icon_prefix @ '' {"url":"https://img/a.svg"}'')] None)
       ([ClockRead, Timer 500] @ [Timer (backoff_delay 0)])
     = Inr ([entry 900 (icon_prefix @ '' {"url":"https://img/0.svg"}'')]
            @ entry 1200 (icon_prefix @ '' {"url":"https://img/b.svg"}'')
            # [entry 1100 (icon_prefix @ '' {"url":"https://img/a.svg"}'')])
   \<and> \<not> qualifies icon_prefix 1000 (entry 900 (icon_prefix @ '' {"url":"https://img/0.svg"}''))
   \<and> qualifies icon_prefix 1000 (entry 1200 (icon_prefix @ '' {"url":"https://img/b.svg"}''))
   \<and> poll_loop (live_world 1000
                 [entry 900 (icon_prefix @ '' {"url":"https://img/0.svg"}''),
                  entry 1200 (icon_prefix @ '' {"url":"https://img/b.svg"}''),
                  entry 1100 (icon_prefix @ '' {"url":"https://img/a.svg"}'')] None)
         icon_prefix 1000 0 [ClockRead, Timer 500]
       = (Inr (message_body icon_prefix (entry 1200 (icon_prefix @ '' {"url":"https://img/b.svg"}''))),
          [ClockRead, Timer 500] @ [Timer (backoff_delay 0), LogsQuery])\<close>
proof -
  let ?old = \<open>entry 900 (icon_prefix @ '' {"url":"https://img/0.svg"}'')\<close>
  let ?b = \<open>entry 1200 (icon_prefix @ '' {"url":"https://img/b.svg"}'')\<close>
  let ?a = \<open>entry 1100 (icon_prefix @ '' {"url":"https://img/a.svg"}'')\<close>
  let ?E = "live_world 1000 [?old, ?b, ?a] None"
  have h1: "logs_reply ?E ([ClockRead, Timer 500] @ [Timer (backoff_delay 0)])
              = Inr ([?old] @ ?b # [?a])"
    by (simp add: live_world_def entry_def newer_than_def backoff_delay_def)
  have h2: "\<forall>x \<in> set [?old]. \<not> qualifies icon_prefix 1000 x"
    by (simp add: qualifies_def entry_def)
  have h3: "qualifies icon_prefix 1000 ?b"
    by (simp add: qualifies_def entry_def startsWith_def)
  have h2': "\<not> qualifies icon_prefix 1000 ?old"
    using h2 by simp
  from poll_loop_returns_first_listed [OF h1 h2 h3] h1 h2' h3 show ?thesis
    by blast
qed

text \<open>
  C7. The poll first waits a fixed 500 ms, before any query. The wait before attempt \<open>i\<close>
  (counted from 0) is \<open>100 \<sqdot> 2\<^sup>i\<close> ms, and the five waits add up to 3100 ms. A poll makes
  between one and five attempts, each a wait followed by a query; when the five snapshots
  it fetches hold no qualifying entry, it makes all five attempts and then throws its
  timeout message.
\<close>

theorem pollLogsForMessage_grace_and_backoff:
  "(\<forall>i. backoff_delay i = 100 * 2 ^ i)
   \<and> sum_list (map backoff_delay [0..<5]) = 3100
   \<and> (\<exists>k. 1 \<le> k \<and> k \<le> 5
         \<and> snd (pollLogsForMessage E prefix tr)
             = tr @ [ClockRead, Timer 500]
                  @ concat (map (\<lambda>i. [Timer (backoff_delay i), LogsQuery]) [0..<k]))
   \<and> ((\<forall>i<5. \<exists>logs. logs_reply E (attempt_history tr i) = Inr logs
                    \<and> scan_logs prefix (date_now E tr) logs = None)
        \<longrightarrow> pollLogsForMessage E prefix tr
              = (Inl (ThrownString (''Poll logs failed for message: '' @ prefix)),
                 tr @ [ClockRead, Timer 500, Timer 100, LogsQuery, Timer 200, LogsQuery,
                       Timer 400, LogsQuery, Timer 800, LogsQuery, Timer 1600, LogsQuery]))"
proof (intro conjI impI)
  show "\<forall>i. backoff_delay i = 100 * 2 ^ i"
    by (simp add: backoff_delay_def)
  show "sum_list (map backoff_delay [0..<5]) = 3100"
    by (simp add: backoff_delay_def upt_conv_Cons)
  from pollLogsForMessage_trace [of E prefix tr]
  show "\<exists>k. 1 \<le> k \<and> k \<le> 5
         \<and> snd (pollLogsForMessage E prefix tr)
             = tr @ [ClockRead, Timer 500]
                  @ concat (map (\<lambda>i. [Timer (backoff_delay i), LogsQuery]) [0..<k])"
    by (simp add: attempts_trace_def)
next
  let ?tr0 = "tr @ [ClockRead, Timer 500]"
  assume a: "\<forall>i<5. \<exists>logs. logs_reply E (attempt_history tr i) = Inr logs
                    \<and> scan_logs prefix (date_now E tr) logs = None"
  have "\<exists>logs. logs_reply E (?tr0 @ attempts_trace 0 i @ [Timer (backoff_delay i)]) = Inr logs
                 \<and> scan_logs prefix (date_now E tr) logs = None" if "i < 5" for i
    using a that by (simp add: attempt_history_def)
  then have "poll_loop E prefix (date_now E tr) 0 ?tr0
      = (Inl (ThrownString (''Poll logs failed for message: '' @ prefix)),
         ?tr0 @ attempts_trace 0 5)"
    by (rule poll_loop_timeout_visited) (simp_all add: attempts_trace_def)
  then show "pollLogsForMessage E prefix tr
              = (Inl (ThrownString (''Poll logs failed for message: '' @ prefix)),
                 tr @ [ClockRead, Timer 500, Timer 100, LogsQuery, Timer 200, LogsQuery,
                       Timer 400, LogsQuery, Timer 800, LogsQuery, Timer 1600, LogsQuery])"
    by (simp add: pollLogsForMessage_def Date_now_def attempts_trace_def backoff_delay_def
                  upt_conv_Cons)
qed

theorem pollLogsForMessage_grace_and_backoff_witness:
  \<open>scan_logs icon_prefix 1000 [entry 900 (icon_prefix @ '' {"url":"https://img/0.svg"}'')] = None
   \<and> logs_reply (live_world 1000
          [entry 900 (icon_prefix @ '' {"url":"https://img/0.svg"}''),
           entry 9000 (icon_prefix @ '' {"url":"https://img/1.svg"}'')] None)
        (attempt_history [] 4)
       = Inr [entry 900 (icon_prefix @ '' {"url":"https://img/0.svg"}'')]
   \<and> qualifies icon_prefix 1000 (entry 9000 (icon_prefix @ '' {"url":"https://img/1.svg"}''))
   \<and> pollLogsForMessage
        (live_world 1000
          [entry 900 (icon_prefix @ '' {"url":"https://img/0.svg"}''),
           entry 9000 (icon_prefix @ '' {"url":"https://img/1.svg"}'')] None)
        icon_prefix []
       = (Inl (ThrownString (''Poll logs failed for message: '' @ icon_prefix)),
          [ClockRead, Timer 500, Timer 100, LogsQuery, Timer 200, LogsQuery,
           Timer 400, LogsQuery, Timer 800, LogsQuery, Timer 1600, LogsQuery])\<close>
proof -
  let ?old = \<open>entry 900 (icon_prefix @ '' {"url":"https://img/0.svg"}'')\<close>
  let ?late = \<open>entry 9000 (icon_prefix @ '' {"url":"https://img/1.svg"}'')\<close>
  let ?W = "live_world 1000 [?old, ?late] None"
  have s: "scan_logs icon_prefix 1000 [?old] = None"
    by (simp add: qualifies_def entry_def)
  have q: "qualifies icon_prefix 1000 ?late"
    by (simp add: qualifies_def entry_def startsWith_def)
  have r: "logs_reply ?W (attempt_history [] i) = Inr [?old]" if "i < 5" for i
  proof -
    from that consider "i = 0" | "i = 1" | "i = 2" | "i = 3" | "i = 4" by linarith
    then show ?thesis
      by cases
         (simp_all add: attempt_history_def attempts_trace_def backoff_delay_def upt_conv_Cons
                        live_world_def entry_def newer_than_def)
  qed
  have now: "date_now ?W [] = 1000"
    by (simp add: live_world_def)
  have h: "\<forall>i<5. \<exists>logs. logs_reply ?W (attempt_history [] i) = Inr logs
                    \<and> scan_logs icon_prefix (date_now ?W []) logs = None"
    unfolding now using r s by blast
  from pollLogsForMessage_grace_and_backoff [of ?W icon_prefix "[]"] h r [of 4] s q
  show ?thesis by simp
qed

text \<open>
  C8. The message of a matched entry starts with the prefix, so removing the first
  occurrence of the prefix removes the leading one, and the rest is trimmed. The callback
  of \<^verbatim>\<open>tryPollLogs\<close> parses that body as JSON: whatever value the body parses to, a truthy
  url of it that converts to a string is the value the promise is resolved with, and a
  body that does not parse makes the callback throw the \<^verbatim>\<open>SyntaxError\<close>. On the example
  message the body is \<^verbatim>\<open>{"url":"http://a"}\<close>, it parses to the object with the one member
  \<^verbatim>\<open>url\<close>, and \<^verbatim>\<open>pollLogsWithRetries\<close> resolves with that url.
\<close>

theorem extract_payload:
  \<open>(startsWith (message log) prefix
      \<longrightarrow> message_body prefix log = trim (drop (length prefix) (message log)))
   \<and> (startsWith (message log) prefix
      \<longrightarrow> JSON_parse (trim (drop (length prefix) (message log))) = Some v
      \<longrightarrow> truthy v \<longrightarrow> url_of v = Some u \<longrightarrow> truthy u \<longrightarrow> \<not> template_throws u
      \<longrightarrow> then_callback tagName (message_body prefix log) = Settled (Inr u))
   \<and> (startsWith (message log) prefix
      \<longrightarrow> JSON_parse (trim (drop (length prefix) (message log))) = None
      \<longrightarrow> then_callback tagName (message_body prefix log) = Thrown SyntaxError)
   \<and> (pollLogsForMessage E prefix tr = (Inr body, tr')
      \<longrightarrow> JSON_parse (trim body) = Some v
      \<longrightarrow> truthy v \<longrightarrow> url_of v = Some u \<longrightarrow> truthy u \<longrightarrow> \<not> template_throws u
      \<longrightarrow> tryPollLogs E prefix reqTime tagName maxRetries attempts tr = (Inr u, tr'))
   \<and> message_body ''[Plugin / X] op =''
        \<lparr>time = t, level = lvl, message = ''[Plugin / X] op = {"url":"http://a"}''\<rparr>
       = ''{"url":"http://a"}''
   \<and> JSON_parse (trim ''{"url":"http://a"}'') = Some (JObj [(units ''url'', JStr (units ''http://a''))])
   \<and> pollLogsWithRetries
        (live_world 1000 [entry 1100 ''[Plugin / X] op = {"url":"http://a"}''] None)
        ''[Plugin / X] op ='' 1000 ''X'' 5 []
       = (Inr (JStr (units ''http://a'')), [ClockRead, Timer 500, Timer 100, LogsQuery])\<close>
proof (intro conjI impI)
  assume "startsWith (message log) prefix"
  then show b: "message_body prefix log = trim (drop (length prefix) (message log))"
    by (simp add: message_body_def replace_first_prefix)
  {
    assume "JSON_parse (trim (drop (length prefix) (message log))) = Some v"
      and "truthy v" "url_of v = Some u" "truthy u" "\<not> template_throws u"
    then show "then_callback tagName (message_body prefix log) = Settled (Inr u)"
      unfolding b by (intro then_callback_resolves) (simp_all add: trim_trim)
  }
  {
    assume "JSON_parse (trim (drop (length prefix) (message log))) = None"
    then show "then_callback tagName (message_body prefix log) = Thrown SyntaxError"
      unfolding b by (simp add: then_callback_def trim_trim)
  }
next
  assume "pollLogsForMessage E prefix tr = (Inr body, tr')"
    and "JSON_parse (trim body) = Some v"
    and "truthy v" "url_of v = Some u" "truthy u" "\<not> template_throws u"
  then show "tryPollLogs E prefix reqTime tagName maxRetries attempts tr = (Inr u, tr')"
    by (subst tryPollLogs_unfold) (simp add: after_then_def then_callback_resolves)
next
  show \<open>message_body ''[Plugin / X] op =''
        \<lparr>time = t, level = lvl, message = ''[Plugin / X] op = {"url":"http://a"}''\<rparr>
       = ''{"url":"http://a"}''\<close>
    by (simp add: message_body_def startsWith_def trim_def is_js_space_def)
next
  show \<open>JSON_parse (trim ''{"url":"http://a"}'')
          = Some (JObj [(units ''url'', JStr (units ''http://a''))])\<close>
    by (simp add: trim_def is_js_space_def json_simps)
next
  show \<open>pollLogsWithRetries
        (live_world 1000 [entry 1100 ''[Plugin / X] op = {"url":"http://a"}''] None)
        ''[Plugin / X] op ='' 1000 ''X'' 5 []
       = (Inr (JStr (units ''http://a'')), [ClockRead, Timer 500, Timer 100, LogsQuery])\<close>
    by (simp add: retry_simps run_simps json_simps)
qed

theorem extract_payload_witness:
  \<open>startsWith (message (entry 1100 (icon_prefix @ ''   {"id": 7, "url": "https://img/1.svg"}  '')))
      icon_prefix
   \<and> JSON_parse (trim (drop (length icon_prefix)
         (message (entry 1100 (icon_prefix @ ''   {"id": 7, "url": "https://img/1.svg"}  '')))))
       = Some (JObj [(units ''id'', JNum 7 0), (units ''url'', JStr (units ''https://img/1.svg''))])
   \<and> url_of (JObj [(units ''id'', JNum 7 0), (units ''url'', JStr (units ''https://img/1.svg''))])
       = Some (JStr (units ''https://img/1.svg''))
   \<and> message_body icon_prefix (entry 1100 (icon_prefix @ ''   {"id": 7, "url": "https://img/1.svg"}  ''))
       = ''{"id": 7, "url": "https://img/1.svg"}''
   \<and> then_callback ''Forest''
        (message_body icon_prefix
           (entry 1100 (icon_prefix @ ''   {"id": 7, "url": "https://img/1.svg"}  '')))
       = Settled (Inr (JStr (units ''https://img/1.svg'')))\<close>
proof -
  let ?log = \<open>entry 1100 (icon_prefix @ ''   {"id": 7, "url": "https://img/1.svg"}  '')\<close>
  let ?v = \<open>JObj [(units ''id'', JNum 7 0), (units ''url'', JStr (units ''https://img/1.svg''))]\<close>
  let ?u = \<open>JStr (units ''https://img/1.svg'')\<close>
  have h1: "startsWith (message ?log) icon_prefix"
    by (simp add: startsWith_def entry_def)
  have h2: "JSON_parse (trim (drop (length icon_prefix) (message ?log))) = Some ?v"
    by (simp add: entry_def trim_def is_js_space_def json_simps
                  parse_number_def parse_exp_def digits_val_def)
  have h3: "truthy ?v" by simp
  have h4: "url_of ?v = Some ?u" by (simp add: units_def)
  have h5: "truthy ?u" by (simp add: units_def)
  have h6: "\<not> template_throws ?u" by simp
  have m: \<open>message_body icon_prefix ?log = ''{"id": 7, "url": "https://img/1.svg"}''\<close>
    by (simp add: message_body_def startsWith_def entry_def trim_def is_js_space_def icon_prefix_def)
  from extract_payload [of ?log icon_prefix ?v ?u "''Forest''"] h1 h2 h3 h4 h5 h6
  have "then_callback ''Forest'' (message_body icon_prefix ?log) = Settled (Inr ?u)"
    by blast
  with h1 h2 h4 m show ?thesis by blast
qed

text \<open>
  C9. With \<open>maxRetries\<close> at least 1, as in the one call, which passes 5,
  \<^verbatim>\<open>pollLogsWithRetries\<close> invokes \<^verbatim>\<open>pollLogsForMessage\<close> at most \<open>maxRetries\<close> times. Each
  invocation sends at most five queries, so at most \<open>5 \<sqdot> maxRetries\<close> queries are sent, and
  the promise settles after at most \<open>12 \<sqdot> maxRetries\<close> calls to the platform. With
  \<open>maxRetries = 5\<close> that is at most 5 polls, 25 queries and 60 calls, also for
  \<^verbatim>\<open>fetchTagIcon\<close> as a whole.
\<close>

theorem pollLogsWithRetries_bounded:
  "(1 \<le> maxRetries \<longrightarrow>
       int (clock_reads (snd (pollLogsWithRetries E prefix reqTime tagName maxRetries tr)))
         \<le> int (clock_reads tr) + maxRetries
     \<and> int (log_queries (snd (pollLogsWithRetries E prefix reqTime tagName maxRetries tr)))
         \<le> int (log_queries tr) + 5 * maxRetries
     \<and> int (length (snd (pollLogsWithRetries E prefix reqTime tagName maxRetries tr)))
         \<le> int (length tr) + 12 * maxRetries)
   \<and> log_queries (snd (pollLogsForMessage E prefix tr)) \<le> log_queries tr + 5
   \<and> clock_reads (snd (pollLogsWithRetries E prefix reqTime tagName 5 tr)) \<le> clock_reads tr + 5
   \<and> log_queries (snd (pollLogsWithRetries E prefix reqTime tagName 5 tr)) \<le> log_queries tr + 25
   \<and> length (snd (pollLogsWithRetries E prefix reqTime tagName 5 tr)) \<le> length tr + 60
   \<and> log_queries (snd (fetchTagIcon E tagName tr)) \<le> log_queries tr + 25"
proof (intro conjI impI)
  assume m: "1 \<le> maxRetries"
  then have mx: "max 1 (maxRetries - 0) = maxRetries" by simp
  from tryPollLogs_counts [of E prefix reqTime tagName maxRetries 0 tr]
  show "int (clock_reads (snd (pollLogsWithRetries E prefix reqTime tagName maxRetries tr)))
         \<le> int (clock_reads tr) + maxRetries"
    and "int (log_queries (snd (pollLogsWithRetries E prefix reqTime tagName maxRetries tr)))
         \<le> int (log_queries tr) + 5 * maxRetries"
    unfolding mx pollLogsWithRetries_def by blast+
  from tryPollLogs_length [of E prefix reqTime tagName maxRetries 0 tr]
  show "int (length (snd (pollLogsWithRetries E prefix reqTime tagName maxRetries tr)))
         \<le> int (length tr) + 12 * maxRetries"
    unfolding mx pollLogsWithRetries_def .
next
  show "log_queries (snd (pollLogsForMessage E prefix tr)) \<le> log_queries tr + 5"
    by (rule pollLogsForMessage_counts(2))
  show "clock_reads (snd (pollLogsWithRetries E prefix reqTime tagName 5 tr)) \<le> clock_reads tr + 5"
    using tryPollLogs_counts [of E prefix reqTime tagName 5 0 tr]
    by (simp add: pollLogsWithRetries_def)
  show "log_queries (snd (pollLogsWithRetries E prefix reqTime tagName 5 tr)) \<le> log_queries tr + 25"
    using tryPollLogs_counts [of E prefix reqTime tagName 5 0 tr]
    by (simp add: pollLogsWithRetries_def)
  show "length (snd (pollLogsWithRetries E prefix reqTime tagName 5 tr)) \<le> length tr + 60"
    using tryPollLogs_length [of E prefix reqTime tagName 5 0 tr]
    by (simp add: pollLogsWithRetries_def)
  let ?tr2 = "tr @ [ClockRead, RunTask PLUGIN_ID ''Recraft Tag Icon''
                           [(''name'', ''recraftTagIcon''), (''tagName'', tagName)]]"
  have q2: "log_queries ?tr2 = log_queries tr"
    by (simp add: log_queries_def)
  from fetchTagIcon_trace [of E tagName tr]
  show "log_queries (snd (fetchTagIcon E tagName tr)) \<le> log_queries tr + 25"
  proof
    assume "snd (fetchTagIcon E tagName tr) = ?tr2"
    with q2 show ?thesis by simp
  next
    assume "task_reply E (tr @ [ClockRead]) = None
      \<and> snd (fetchTagIcon E tagName tr)
          = snd (tryPollLogs E icon_prefix (date_now E tr) tagName 5 0 ?tr2)"
    with tryPollLogs_counts [of E icon_prefix "date_now E tr" tagName 5 0 ?tr2] q2
    show ?thesis by simp
  qed
qed

theorem pollLogsWithRetries_bounded_witness:
  "(1::int) \<le> 5
   \<and> clock_reads (snd (pollLogsWithRetries (live_world 1000 [] None) icon_prefix 1000 ''Forest'' 5 [])) = 5
   \<and> log_queries (snd (pollLogsWithRetries (live_world 1000 [] None) icon_prefix 1000 ''Forest'' 5 [])) = 25
   \<and> length (snd (pollLogsWithRetries (live_world 1000 [] None) icon_prefix 1000 ''Forest'' 5 [])) = 60
   \<and> int (clock_reads (snd (pollLogsWithRetries (live_world 1000 [] None) icon_prefix 1000 ''Forest'' 5 [])))
         \<le> int (clock_reads []) + 5"
proof -
  let ?r = "snd (pollLogsWithRetries (live_world 1000 [] None) icon_prefix 1000 ''Forest'' 5 [])"
  have h: "(1::int) \<le> 5" by simp
  have e: "clock_reads ?r = 5" "log_queries ?r = 25" "length ?r = 60"
    by (simp_all add: retry_simps run_simps count_simps)
  from pollLogsWithRetries_bounded [of 5 "live_world 1000 [] None" icon_prefix 1000 "''Forest''" "[]"] h
  have "int (clock_reads ?r) \<le> int (clock_reads []) + 5" by blast
  with h e show ?thesis by blast
qed

text \<open>
  C10. When the snapshots of two worlds differ at most in the levels of their entries, and
  the clocks agree, the call \<^verbatim>\<open>pollLogsForMessage(prefix, lvl, reqTime)\<close> gives the same
  result and makes the same calls in both, whatever level is passed.
\<close>

theorem level_has_no_effect:
  assumes "\<forall>h. rel_sum (=) (list_all2 same_but_level) (logs_reply E h) (logs_reply E' h)"
    and "date_now E' = date_now E"
  shows "pollLogsForMessage_call E' prefix lvl' reqTime tr
           = pollLogsForMessage_call E prefix lvl reqTime tr"
proof -
  have "map_sum id (scan_logs prefix T) (logs_reply E' h)
      = map_sum id (scan_logs prefix T) (logs_reply E h)" for T h
  proof -
    from assms(1) have "rel_sum (=) (list_all2 same_but_level) (logs_reply E h) (logs_reply E' h)"
      by blast
    then show ?thesis
      by (cases rule: rel_sum.cases) (simp_all add: scan_logs_same_but_level)
  qed
  then have "poll_loop E' prefix T r hs = poll_loop E prefix T r hs" for T r hs
    by (rule poll_loop_cong)
  with assms(2) show ?thesis
    by (simp add: pollLogsForMessage_call_def pollLogsForMessage_def Date_now_def)
qed

theorem level_has_no_effect_witness:
  \<open>(\<forall>h. rel_sum (=) (list_all2 same_but_level)
          (logs_reply (live_world 1000 [entry 1100 (icon_prefix @ '' {"url":"https://img/1.svg"}'')] None) h)
          (logs_reply (live_world 1000
             [\<lparr>time = Some 1100, level = ''Error'',
               message = icon_prefix @ '' {"url":"https://img/1.svg"}''\<rparr>] None) h))
   \<and> date_now (live_world 1000
             [\<lparr>time = Some 1100, level = ''Error'',
               message = icon_prefix @ '' {"url":"https://img/1.svg"}''\<rparr>] None)
     = date_now (live_world 1000 [entry 1100 (icon_prefix @ '' {"url":"https://img/1.svg"}'')] None)
   \<and> pollLogsForMessage_call
        (live_world 1000
             [\<lparr>time = Some 1100, level = ''Error'',
               message = icon_prefix @ '' {"url":"https://img/1.svg"}''\<rparr>] None)
        icon_prefix ''Debug'' 1000 []
     = pollLogsForMessage_call
        (live_world 1000 [entry 1100 (icon_prefix @ '' {"url":"https://img/1.svg"}'')] None)
        icon_prefix ''Info'' 1000 []
   \<and> fst (pollLogsForMessage_call
        (live_world 1000 [entry 1100 (icon_prefix @ '' {"url":"https://img/1.svg"}'')] None)
        icon_prefix ''Info'' 1000 []) = Inr ''{"url":"https://img/1.svg"}''\<close>
proof -
  let ?m = \<open>icon_prefix @ '' {"url":"https://img/1.svg"}''\<close>
  let ?E = "live_world 1000 [entry 1100 ?m] None"
  let ?E' = "live_world 1000 [\<lparr>time = Some 1100, level = ''Error'', message = ?m\<rparr>] None"
  have h1: "\<forall>h. rel_sum (=) (list_all2 same_but_level) (logs_reply ?E h) (logs_reply ?E' h)"
    by (simp add: live_world_def entry_def newer_than_def same_but_level_def)
  have h2: "date_now ?E' = date_now ?E"
    by (simp add: live_world_def)
  have v: \<open>fst (pollLogsForMessage_call ?E icon_prefix ''Info'' 1000 [])
            = Inr ''{"url":"https://img/1.svg"}''\<close>
    by (simp add: pollLogsForMessage_call_def run_simps)
  from level_has_no_effect [OF h1 h2, of icon_prefix \<open>''Debug''\<close> 1000 "[]" \<open>''Info''\<close>] h1 h2 v
  show ?thesis by blast
qed

end
